theory Spec2Isabelle
  imports Main
begin

section \<open>JavaScript strings\<close>

text \<open>
  A JavaScript string is modelled as a \<open>string\<close> (a list of characters).
  \<open>toLowerCase\<close> maps the letters A to Z to a to z and leaves every other character as
  it is; the case mapping of characters outside ASCII is not modelled. The theorems on
  \<open>mapError\<close> below speak of the lower-cased text only, so they hold for whatever
  the lower-casing gives.
\<close>

definition lowerChar :: "char \<Rightarrow> char" where
  "lowerChar c =
     (if (65::nat) \<le> of_char c \<and> of_char c \<le> (90::nat)
      then char_of (of_char c + (32::nat)) else c)"

definition toLowerCase :: "string \<Rightarrow> string" where
  "toLowerCase s = map lowerChar s"

fun startsWith :: "string \<Rightarrow> string \<Rightarrow> bool" where
  "startsWith s [] = True"
| "startsWith [] (p # ps) = False"
| "startsWith (c # cs) (p # ps) = (c = p \<and> startsWith cs ps)"

text \<open>\<open>includesStr s t\<close> is \<open>s.includes(t)\<close>: \<open>t\<close> occurs in \<open>s\<close> as a substring.\<close>

fun includesStr :: "string \<Rightarrow> string \<Rightarrow> bool" where
  "includesStr [] t = (t = [])"
| "includesStr (c # cs) t = (startsWith (c # cs) t \<or> includesStr cs t)"

definition digitChar :: "nat \<Rightarrow> char" where
  "digitChar d = char_of (48 + d)"

function showNat :: "nat \<Rightarrow> string" where
  "showNat n = (if n < 10 then [digitChar n] else showNat (n div 10) @ [digitChar (n mod 10)])"
  by pat_completeness auto
termination
  by (relation "measure (\<lambda>n. n)") auto

definition showInt :: "int \<Rightarrow> string" where
  "showInt i = (if i < 0 then CHR ''-'' # showNat (nat (- i)) else showNat (nat i))"

section \<open>Error taxonomy (gemini-provider.ts, GeminiErrorCode and mapError)\<close>

datatype GeminiErrorCode =
    NOT_INSTALLED
  | NOT_AUTHENTICATED
  | RATE_LIMITED
  | MODEL_UNAVAILABLE
  | NETWORK_ERROR
  | PROCESS_CRASHED
  | TIMEOUT
  | UNKNOWN

record CliErrorInfo =
  code :: GeminiErrorCode
  message :: string
  recoverable :: bool
  suggestion :: "string option"

text \<open>The five heuristics of \<open>mapError\<close>, each on the lower-cased stderr text.\<close>

definition authHeuristic :: "string \<Rightarrow> bool" where
  "authHeuristic lower =
     (includesStr lower ''not authenticated'' \<or>
      includesStr lower ''please log in'' \<or>
      includesStr lower ''unauthorized'' \<or>
      includesStr lower ''login required'' \<or>
      includesStr lower ''error authenticating'' \<or>
      includesStr lower ''loadcodeassist'' \<or>
      (includesStr lower ''econnrefused'' \<and> includesStr lower ''8888''))"

definition rateLimitHeuristic :: "string \<Rightarrow> bool" where
  "rateLimitHeuristic lower =
     (includesStr lower ''rate limit'' \<or>
      includesStr lower ''too many requests'' \<or>
      includesStr lower ''429'' \<or>
      includesStr lower ''quota exceeded'')"

definition modelHeuristic :: "string \<Rightarrow> bool" where
  "modelHeuristic lower =
     (includesStr lower ''model not available'' \<or>
      includesStr lower ''invalid model'' \<or>
      includesStr lower ''unknown model'' \<or>
      includesStr lower ''modelnotfounderror'' \<or>
      includesStr lower ''model not found'' \<or>
      (includesStr lower ''not found'' \<and> includesStr lower ''404''))"

definition networkHeuristic :: "string \<Rightarrow> bool" where
  "networkHeuristic lower =
     (includesStr lower ''network'' \<or>
      includesStr lower ''connection'' \<or>
      includesStr lower ''econnrefused'' \<or>
      includesStr lower ''timeout'')"

definition crashHeuristic :: "string \<Rightarrow> int option \<Rightarrow> bool" where
  "crashHeuristic lower exitCode =
     (exitCode = Some 137 \<or> includesStr lower ''killed'' \<or> includesStr lower ''sigterm'')"

text \<open>\<open>exitCode\<close> is \<open>number | null\<close>: \<open>None\<close> is \<open>null\<close>.\<close>

definition showExitCode :: "int option \<Rightarrow> string" where
  "showExitCode exitCode = (case exitCode of None \<Rightarrow> ''null'' | Some n \<Rightarrow> showInt n)"

definition mapError :: "string \<Rightarrow> int option \<Rightarrow> CliErrorInfo" where
  "mapError stderr exitCode =
     (let lower = toLowerCase stderr in
      if authHeuristic lower then
        \<lparr>code = NOT_AUTHENTICATED,
         message = ''Gemini CLI is not authenticated'',
         recoverable = True,
         suggestion = Some ''Run \"gemini\" interactively to log in, or set GEMINI_API_KEY environment variable''\<rparr>
      else if rateLimitHeuristic lower then
        \<lparr>code = RATE_LIMITED,
         message = ''Gemini API rate limit exceeded'',
         recoverable = True,
         suggestion = Some ''Wait a few minutes and try again. Free tier: 60 req/min, 1000 req/day''\<rparr>
      else if modelHeuristic lower then
        \<lparr>code = MODEL_UNAVAILABLE,
         message = ''Requested model is not available'',
         recoverable = True,
         suggestion = Some ''Try using \"gemini-2.5-flash\" or select a different model''\<rparr>
      else if networkHeuristic lower then
        \<lparr>code = NETWORK_ERROR,
         message = ''Network connection error'',
         recoverable = True,
         suggestion = Some ''Check your internet connection and try again''\<rparr>
      else if crashHeuristic lower exitCode then
        \<lparr>code = PROCESS_CRASHED,
         message = ''Gemini CLI process was terminated'',
         recoverable = True,
         suggestion = Some ''The process may have run out of memory. Try a simpler task.''\<rparr>
      else
        \<lparr>code = UNKNOWN,
         message = (if stderr \<noteq> [] then stderr
                    else ''Gemini CLI exited with code '' @ showExitCode exitCode),
         recoverable = False,
         suggestion = None\<rparr>)"

section \<open>Raw events: parsed JSON values\<close>

text \<open>
  \<open>normalizeEvent\<close> takes \<open>unknown\<close>: whatever \<open>JSON.parse\<close> made of one line of the
  CLI's output. \<open>jsval\<close> is that value. \<open>JUndefined\<close> is what reading a missing property
  gives. A number is carried as the decimal text JavaScript prints for it (so \<open>JNum ''0''\<close>
  is the only falsy number: JSON has no NaN). An object is the list of its own
  properties; \<open>map_of\<close> reads the first entry under a key, so the list is taken with one
  entry per key, as the parsed object has.
\<close>

datatype jsval =
    JUndefined
  | JNull
  | JBool bool
  | JNum string
  | JStr string
  | JArr "jsval list"
  | JObj "(string \<times> jsval) list"

datatype js_error = TypeError

fun truthy :: "jsval \<Rightarrow> bool" where
  "truthy JUndefined = False"
| "truthy JNull = False"
| "truthy (JBool b) = b"
| "truthy (JNum s) = (s \<noteq> ''0'')"
| "truthy (JStr s) = (s \<noteq> [])"
| "truthy (JArr xs) = True"
| "truthy (JObj kvs) = True"

text \<open>
  \<open>getProp v k\<close> is \<open>v.k\<close> for the property names this source reads (\<open>type\<close>,
  \<open>session_id\<close>, \<open>todos\<close>, \<open>description\<close> and so on): none of them is a member of a
  built-in prototype, so on a string, number, boolean or array the read gives
  \<open>undefined\<close>, on an object its own property, and on \<open>null\<close> and \<open>undefined\<close> it
  throws a TypeError.
\<close>

fun getProp :: "jsval \<Rightarrow> string \<Rightarrow> js_error + jsval" where
  "getProp JUndefined k = Inl TypeError"
| "getProp JNull k = Inl TypeError"
| "getProp (JObj kvs) k = Inr (case map_of kvs k of None \<Rightarrow> JUndefined | Some v \<Rightarrow> v)"
| "getProp v k = Inr JUndefined"

text \<open>\<open>getPropOpt v k\<close> is the optional chaining \<open>v?.k\<close>.\<close>

definition getPropOpt :: "jsval \<Rightarrow> string \<Rightarrow> jsval" where
  "getPropOpt v k = (case getProp v k of Inl e \<Rightarrow> JUndefined | Inr x \<Rightarrow> x)"

text \<open>
  \<open>toStringJS\<close> is the conversion to a string that a template literal and a computed
  property key apply. A parsed object that has an own property \<open>toString\<close> hides
  \<open>Object.prototype.toString\<close> behind a value that is not callable, and the conversion
  throws a TypeError; any other object prints as \<open>[object Object]\<close>. An array joins the
  conversions of its elements with commas, \<open>null\<close> and \<open>undefined\<close> elements printing as
  the empty string.
\<close>

fun toStringJS :: "jsval \<Rightarrow> js_error + string"
  and joinJS :: "jsval list \<Rightarrow> js_error + string" where
  "toStringJS JUndefined = Inr ''undefined''"
| "toStringJS JNull = Inr ''null''"
| "toStringJS (JBool b) = Inr (if b then ''true'' else ''false'')"
| "toStringJS (JNum s) = Inr s"
| "toStringJS (JStr s) = Inr s"
| "toStringJS (JArr xs) = joinJS xs"
| "toStringJS (JObj kvs) =
     (if ''toString'' \<in> fst ` set kvs then Inl TypeError else Inr ''[object Object]'')"
| "joinJS [] = Inr []"
| "joinJS (x # xs) =
     (case (if x = JNull \<or> x = JUndefined then Inr [] else toStringJS x) of
        Inl e \<Rightarrow> Inl e
      | Inr s \<Rightarrow>
          (if xs = [] then Inr s
           else (case joinJS xs of Inl e \<Rightarrow> Inl e | Inr r \<Rightarrow> Inr (s @ '','' @ r))))"

text \<open>
  The arguments of a \<open>logger.debug\<close> call are evaluated before the call: a template
  literal converts each interpolated value, left to right, and the first conversion
  that throws ends the evaluation. The logged text itself has no effect here.
\<close>

fun interpolate :: "jsval list \<Rightarrow> js_error option" where
  "interpolate [] = None"
| "interpolate (v # vs) =
     (case toStringJS v of Inl e \<Rightarrow> Some e | Inr s \<Rightarrow> interpolate vs)"

section \<open>Tool names and tool inputs (GEMINI_TOOL_NAME_MAP, normalizeGeminiToolInput)\<close>

definition GEMINI_TOOL_NAME_MAP :: "(string \<times> string) list" where
  "GEMINI_TOOL_NAME_MAP =
     [(''write_todos'', ''TodoWrite''),
      (''read_file'', ''Read''),
      (''read_many_files'', ''Read''),
      (''replace'', ''Edit''),
      (''write_file'', ''Write''),
      (''run_shell_command'', ''Bash''),
      (''search_file_content'', ''Grep''),
      (''glob'', ''Glob''),
      (''list_directory'', ''Ls''),
      (''web_fetch'', ''WebFetch''),
      (''google_web_search'', ''WebSearch'')]"

text \<open>
  The table is an object literal, so a lookup under a key it does not own goes on to
  \<open>Object.prototype\<close>, whose members (functions, and the prototype itself under
  \<open>__proto__\<close>) are all truthy.
\<close>

definition objectPrototypeKeys :: "string list" where
  "objectPrototypeKeys =
     [''constructor'', ''hasOwnProperty'', ''isPrototypeOf'', ''propertyIsEnumerable'',
      ''toLocaleString'', ''toString'', ''valueOf'', ''__proto__'',
      ''__defineGetter__'', ''__defineSetter__'', ''__lookupGetter__'', ''__lookupSetter__'']"

datatype tool_name =
    ToolName jsval
  | InheritedMember string

definition normalizeGeminiToolName :: "jsval \<Rightarrow> js_error + tool_name" where
  "normalizeGeminiToolName geminiToolName =
     (case toStringJS geminiToolName of
        Inl e \<Rightarrow> Inl e
      | Inr key \<Rightarrow>
          (case map_of GEMINI_TOOL_NAME_MAP key of
             Some n \<Rightarrow> Inr (ToolName (JStr n))
           | None \<Rightarrow>
               if key \<in> set objectPrototypeKeys then Inr (InheritedMember key)
               else Inr (ToolName geminiToolName)))"

text \<open>The callback of \<open>input.todos.map\<close>: one todo of the vendor to one todo of the common shape.\<close>

definition normalizeTodo :: "jsval \<Rightarrow> js_error + jsval" where
  "normalizeTodo todo =
     (case getProp todo ''description'' of
        Inl e \<Rightarrow> Inl e
      | Inr description \<Rightarrow>
          (case getProp todo ''status'' of
             Inl e \<Rightarrow> Inl e
           | Inr status \<Rightarrow>
               Inr (JObj
                 [(''content'', if truthy description then description else JStr []),
                  (''status'', if status = JStr ''cancelled'' then JStr ''completed'' else status),
                  (''activeForm'', if truthy description then description else JStr [])])))"

text \<open>\<open>Array.prototype.map\<close> with a callback that may throw: the first throw ends the map.\<close>

fun mapThrowing :: "('a \<Rightarrow> js_error + 'b) \<Rightarrow> 'a list \<Rightarrow> js_error + 'b list" where
  "mapThrowing f [] = Inr []"
| "mapThrowing f (x # xs) =
     (case f x of
        Inl e \<Rightarrow> Inl e
      | Inr y \<Rightarrow> (case mapThrowing f xs of Inl e \<Rightarrow> Inl e | Inr ys \<Rightarrow> Inr (y # ys)))"

definition normalizeGeminiToolInput :: "jsval \<Rightarrow> jsval \<Rightarrow> js_error + jsval" where
  "normalizeGeminiToolInput toolName input =
     (if toolName = JStr ''write_todos'' then
        (case getProp input ''todos'' of
           Inl e \<Rightarrow> Inl e
         | Inr (JArr todos) \<Rightarrow>
             (case mapThrowing normalizeTodo todos of
                Inl e \<Rightarrow> Inl e
              | Inr ts \<Rightarrow> Inr (JObj [(''todos'', JArr ts)]))
         | Inr other \<Rightarrow> Inr input)
      else Inr input)"

section \<open>Provider messages and normalizeEvent\<close>

text \<open>
  \<open>TextBlock text\<close>, \<open>ToolUseBlock name tool_use_id input\<close>,
  \<open>ToolResultBlock tool_use_id content\<close>. The fields hold what the event held: the
  source copies them without looking at their type. The first argument of each message
  is its \<open>session_id\<close>; \<open>ResultSuccess\<close> is \<open>{type: 'result', subtype: 'success'}\<close>.
\<close>

datatype ContentBlock =
    TextBlock jsval
  | ToolUseBlock tool_name jsval jsval
  | ToolResultBlock jsval jsval

datatype ProviderMessage =
    AssistantMessage jsval "ContentBlock list"
  | ResultSuccess jsval
  | ErrorMessage jsval jsval

fun session_id :: "ProviderMessage \<Rightarrow> jsval" where
  "session_id (AssistantMessage sid blocks) = sid"
| "session_id (ResultSuccess sid) = sid"
| "session_id (ErrorMessage sid err) = sid"

fun set_session_id :: "jsval \<Rightarrow> ProviderMessage \<Rightarrow> ProviderMessage" where
  "set_session_id s (AssistantMessage sid blocks) = AssistantMessage s blocks"
| "set_session_id s (ResultSuccess sid) = ResultSuccess s"
| "set_session_id s (ErrorMessage sid err) = ErrorMessage s err"

text \<open>
  \<open>field e k\<close> reads a property of an event whose \<open>type\<close> has been read already, so
  the event is neither \<open>null\<close> nor \<open>undefined\<close> and the read cannot throw.
\<close>

definition field :: "jsval \<Rightarrow> string \<Rightarrow> jsval" where
  "field e k = getPropOpt e k"

definition errorOrUnknown :: "jsval \<Rightarrow> jsval" where
  "errorOrUnknown err = (if truthy err then err else JStr ''Unknown error'')"

definition normalizeToolUse :: "jsval \<Rightarrow> js_error + ProviderMessage option" where
  "normalizeToolUse e =
     (case normalizeGeminiToolName (field e ''tool_name'') of
        Inl err \<Rightarrow> Inl err
      | Inr normalizedName \<Rightarrow>
          (case normalizeGeminiToolInput (field e ''tool_name'') (field e ''parameters'') of
             Inl err \<Rightarrow> Inl err
           | Inr normalizedInput \<Rightarrow>
               Inr (Some (AssistantMessage (field e ''session_id'')
                 [ToolUseBlock normalizedName (field e ''tool_id'') normalizedInput]))))"

definition normalizeToolResult :: "jsval \<Rightarrow> js_error + ProviderMessage option" where
  "normalizeToolResult e =
     (case (if field e ''status'' = JStr ''error''
            then (case toStringJS (field e ''output'') of
                    Inl err \<Rightarrow> Inl err
                  | Inr s \<Rightarrow> Inr (JStr (''[ERROR] '' @ s)))
            else Inr (field e ''output'')) of
        Inl err \<Rightarrow> Inl err
      | Inr content \<Rightarrow>
          Inr (Some (AssistantMessage (field e ''session_id'')
            [ToolResultBlock (field e ''tool_id'') content])))"

definition normalizeEvent :: "jsval \<Rightarrow> js_error + ProviderMessage option" where
  "normalizeEvent event =
     (case getProp event ''type'' of
        Inl err \<Rightarrow> Inl err
      | Inr ty \<Rightarrow>
          if ty = JStr ''init'' then
            (case interpolate [field event ''session_id'', field event ''model''] of
               Some err \<Rightarrow> Inl err
             | None \<Rightarrow> Inr None)
          else if ty = JStr ''message'' then
            (if field event ''role'' = JStr ''user'' then Inr None
             else if field event ''role'' = JStr ''assistant'' then
               Inr (Some (AssistantMessage (field event ''session_id'')
                 [TextBlock (field event ''content'')]))
             else Inr None)
          else if ty = JStr ''tool_use'' then normalizeToolUse event
          else if ty = JStr ''tool_result'' then normalizeToolResult event
          else if ty = JStr ''result'' then
            (if field event ''status'' = JStr ''error'' then
               Inr (Some (ErrorMessage (field event ''session_id'')
                 (errorOrUnknown (field event ''error''))))
             else
               (case interpolate [field event ''status'',
                                  getPropOpt (field event ''stats'') ''total_tokens''] of
                  Some err \<Rightarrow> Inl err
                | None \<Rightarrow> Inr (Some (ResultSuccess (field event ''session_id'')))))
          else if ty = JStr ''error'' then
            Inr (Some (ErrorMessage (field event ''session_id'')
              (errorOrUnknown (field event ''error''))))
          else
            (case interpolate [ty] of
               Some err \<Rightarrow> Inl err
             | None \<Rightarrow> Inr None))"

text \<open>
  The events on which \<open>normalizeEvent\<close> returns, described by their shape.
  \<open>printable v\<close>: the conversion of \<open>v\<close> to text does not throw (so for every string,
  number, boolean, \<open>null\<close> and missing value, and for every object and array that has
  no own \<open>toString\<close> property inside). \<open>todosReadable p\<close>: the parameters \<open>p\<close> of a
  \<open>write_todos\<close> call are not \<open>null\<close> or missing, and if \<open>p.todos\<close> is an array, none of
  its elements is \<open>null\<close>.
\<close>

definition printable :: "jsval \<Rightarrow> bool" where
  "printable v = (case toStringJS v of Inl e \<Rightarrow> False | Inr s \<Rightarrow> True)"

definition todosReadable :: "jsval \<Rightarrow> bool" where
  "todosReadable p =
     (p \<noteq> JNull \<and> p \<noteq> JUndefined \<and>
      (case getPropOpt p ''todos'' of
         JArr todos \<Rightarrow> JNull \<notin> set todos \<and> JUndefined \<notin> set todos
       | _ \<Rightarrow> True))"

definition documentedTags :: "jsval set" where
  "documentedTags =
     {JStr ''init'', JStr ''message'', JStr ''tool_use'', JStr ''tool_result'',
      JStr ''result'', JStr ''error''}"

definition normalizable :: "jsval \<Rightarrow> bool" where
  "normalizable e =
     (e \<noteq> JNull \<and> e \<noteq> JUndefined \<and>
      (field e ''type'' = JStr ''init'' \<longrightarrow>
         printable (field e ''session_id'') \<and> printable (field e ''model'')) \<and>
      (field e ''type'' = JStr ''tool_use'' \<longrightarrow>
         printable (field e ''tool_name'') \<and>
         (field e ''tool_name'' = JStr ''write_todos'' \<longrightarrow>
            todosReadable (field e ''parameters''))) \<and>
      (field e ''type'' = JStr ''tool_result'' \<and> field e ''status'' = JStr ''error'' \<longrightarrow>
         printable (field e ''output'')) \<and>
      (field e ''type'' = JStr ''result'' \<and> field e ''status'' \<noteq> JStr ''error'' \<longrightarrow>
         printable (field e ''status'') \<and>
         printable (getPropOpt (field e ''stats'') ''total_tokens'')) \<and>
      (field e ''type'' \<notin> documentedTags \<longrightarrow> printable (field e ''type'')))"

section \<open>Execution options, extractPromptText and buildCliArgs\<close>

text \<open>
  Of \<open>ExecuteOptions\<close> the provider reads \<open>prompt\<close>, \<open>model\<close> and \<open>cwd\<close>. A prompt is a
  string, an array of parts \<open>{type, text?}\<close>, or anything else (\<open>PromptOther\<close>), for which
  \<open>extractPromptText\<close> throws. \<open>None\<close> is an \<open>undefined\<close> field; \<open>present\<close> is the
  truthiness of an optional string: defined and not empty.
\<close>

datatype PromptPart = PromptPart string "string option"

datatype Prompt =
    PromptString string
  | PromptArray "PromptPart list"
  | PromptOther

record ExecuteOptions =
  prompt :: Prompt
  model :: "string option"
  cwd :: "string option"

definition present :: "string option \<Rightarrow> bool" where
  "present v = (case v of None \<Rightarrow> False | Some s \<Rightarrow> s \<noteq> [])"

text \<open>
  A thrown value, as the \<open>catch\<close> block of \<open>executeQuery\<close> looks at it:
  \<open>isErrorInstance\<close> is \<open>error instanceof Error\<close>, \<open>hasStderr\<close> is \<open>'stderr' in error\<close>,
  \<open>excStderr\<close> is \<open>error.stderr\<close> and \<open>excExitCode\<close> is \<open>error.exitCode ?? null\<close>.
\<close>

record js_exception =
  isErrorInstance :: bool
  excName :: string
  excMessage :: string
  hasStderr :: bool
  excStderr :: "string option"
  excExitCode :: "int option"

definition plainError :: "string \<Rightarrow> string \<Rightarrow> js_exception" where
  "plainError name msg =
     \<lparr>isErrorInstance = True, excName = name, excMessage = msg,
      hasStderr = False, excStderr = None, excExitCode = None\<rparr>"

text \<open>The TypeError of the runtime; its message is the engine's and is left empty.\<close>

definition typeErrorException :: "js_error \<Rightarrow> js_exception" where
  "typeErrorException e = plainError ''TypeError'' []"

fun joinWith :: "string \<Rightarrow> string list \<Rightarrow> string" where
  "joinWith sep [] = []"
| "joinWith sep [x] = x"
| "joinWith sep (x # y # ys) = x @ sep @ joinWith sep (y # ys)"

fun isTextPart :: "PromptPart \<Rightarrow> bool" where
  "isTextPart (PromptPart ty txt) = (ty = ''text'' \<and> present txt)"

fun partText :: "PromptPart \<Rightarrow> string" where
  "partText (PromptPart ty txt) = (case txt of None \<Rightarrow> [] | Some t \<Rightarrow> t)"

definition extractPromptText :: "ExecuteOptions \<Rightarrow> js_exception + string" where
  "extractPromptText options =
     (case prompt options of
        PromptString s \<Rightarrow> Inr s
      | PromptArray parts \<Rightarrow> Inr (joinWith [CHR 0x0A] (map partText (filter isTextPart parts)))
      | PromptOther \<Rightarrow> Inl (plainError ''Error'' ''Invalid prompt format''))"

definition buildCliArgs :: "ExecuteOptions \<Rightarrow> string list" where
  "buildCliArgs options =
     (let bareModel = (if present (model options) then the (model options) else ''2.5-flash'') in
      [''--output-format'', ''stream-json''] @
      (if bareModel \<noteq> [] \<and> bareModel \<noteq> ''auto''
       then [''--model'', if startsWith bareModel ''gemini-'' then bareModel
                         else ''gemini-'' @ bareModel]
       else []) @
      [''--sandbox'', ''false''] @
      [''--approval-mode'', ''yolo''] @
      (if present (cwd options) then [''--include-directories'', the (cwd options)] else []))"

section \<open>executeQuery\<close>

text \<open>
  What is outside this file is a parameter of the provider: the detected CLI path,
  \<open>validateBareModelId\<close> (which throws or returns), \<open>isAbortError\<close>, and
  \<open>spawnJSONLProcess\<close>, which for an executable, an argv and the options gives the
  parsed lines of the run and how the stream ended: \<open>None\<close> when it ended normally,
  \<open>Some exc\<close> when it threw \<open>exc\<close> after the last line. Streams are finite here.
\<close>

record provider_env =
  cliPath :: "string option"
  validateBareModelId :: "string option \<Rightarrow> js_exception option"
  isAbortError :: "js_exception \<Rightarrow> bool"
  spawnJSONLProcess :: "string \<Rightarrow> string list \<Rightarrow> ExecuteOptions \<Rightarrow> jsval list \<times> js_exception option"

datatype raised =
    Raw js_exception
  | GeminiError GeminiErrorCode string bool "string option"

datatype outcome =
    Completed
  | Raised raised

definition getInstallInstructions :: string where
  "getInstallInstructions =
     ''Install with: npm install -g @google/gemini-cli (or visit https://github.com/google-gemini/gemini-cli)''"

text \<open>
  The body of the \<open>for await\<close> loop over the raw events, with the captured
  \<open>sessionId\<close> as state. The result is the messages yielded, in order, and the error
  thrown inside the loop body, if any; after a throw nothing more is read.
\<close>

definition captureSession :: "jsval \<Rightarrow> jsval \<Rightarrow> js_error + jsval" where
  "captureSession sessionId event =
     (case getProp event ''type'' of
        Inl err \<Rightarrow> Inl err
      | Inr ty \<Rightarrow>
          if ty = JStr ''init'' then
            (case interpolate [field event ''session_id'', field event ''model''] of
               Some err \<Rightarrow> Inl err
             | None \<Rightarrow> Inr (field event ''session_id''))
          else Inr sessionId)"

definition stamp :: "jsval \<Rightarrow> ProviderMessage \<Rightarrow> ProviderMessage" where
  "stamp sessionId normalized =
     (if \<not> truthy (session_id normalized) \<and> truthy sessionId
      then set_session_id sessionId normalized else normalized)"

fun consumeEvents :: "jsval \<Rightarrow> jsval list \<Rightarrow> ProviderMessage list \<times> js_error option" where
  "consumeEvents sessionId [] = ([], None)"
| "consumeEvents sessionId (event # rest) =
     (case captureSession sessionId event of
        Inl err \<Rightarrow> ([], Some err)
      | Inr sid \<Rightarrow>
          (case normalizeEvent event of
             Inl err \<Rightarrow> ([], Some err)
           | Inr None \<Rightarrow> consumeEvents sid rest
           | Inr (Some normalized) \<Rightarrow>
               (stamp sid normalized # fst (consumeEvents sid rest),
                snd (consumeEvents sid rest))))"

text \<open>The \<open>catch\<close> block, over the classifier it calls (\<open>this.mapError\<close>).\<close>

definition catchBlock ::
  "(js_exception \<Rightarrow> bool) \<Rightarrow> (string \<Rightarrow> int option \<Rightarrow> CliErrorInfo) \<Rightarrow> js_exception \<Rightarrow> outcome" where
  "catchBlock isAbort classify exc =
     (if isAbort exc then Completed
      else if isErrorInstance exc \<and> hasStderr exc then
        (let errorInfo = classify
               (if present (excStderr exc) then the (excStderr exc) else excMessage exc)
               (excExitCode exc)
         in Raised (GeminiError (code errorInfo) (message errorInfo)
                      (recoverable errorInfo) (suggestion errorInfo)))
      else Raised (Raw exc))"

definition runStream ::
  "(js_exception \<Rightarrow> bool) \<Rightarrow> (string \<Rightarrow> int option \<Rightarrow> CliErrorInfo) \<Rightarrow>
   jsval list \<times> js_exception option \<Rightarrow> ProviderMessage list \<times> outcome" where
  "runStream isAbort classify stream =
     (case consumeEvents JUndefined (fst stream) of
        (msgs, Some err) \<Rightarrow> (msgs, catchBlock isAbort classify (typeErrorException err))
      | (msgs, None) \<Rightarrow>
          (case snd stream of
             None \<Rightarrow> (msgs, Completed)
           | Some exc \<Rightarrow> (msgs, catchBlock isAbort classify exc)))"

text \<open>The argv of the run: \<open>buildCliArgs\<close> with the prompt text pushed as last argument.\<close>

definition queryArgs :: "ExecuteOptions \<Rightarrow> js_exception + string list" where
  "queryArgs options =
     (case extractPromptText options of
        Inl exc \<Rightarrow> Inl exc
      | Inr promptText \<Rightarrow> Inr (buildCliArgs options @ [promptText]))"

definition executeQuery :: "provider_env \<Rightarrow> ExecuteOptions \<Rightarrow> ProviderMessage list \<times> outcome" where
  "executeQuery env options =
     (case validateBareModelId env (model options) of
        Some exc \<Rightarrow> ([], Raised (Raw exc))
      | None \<Rightarrow>
          if \<not> present (cliPath env) then
            ([], Raised (GeminiError NOT_INSTALLED ''Gemini CLI is not installed'' True
                   (Some getInstallInstructions)))
          else
            (case queryArgs options of
               Inl exc \<Rightarrow> ([], Raised (Raw exc))
             | Inr cliArgs \<Rightarrow>
                 runStream (isAbortError env) mapError
                   (spawnJSONLProcess env (the (cliPath env)) cliArgs options)))"

section \<open>checkAuth\<close>

text \<open>
  The environment variables \<open>checkAuth\<close> reads, and what it finds at
  \<open>~/.gemini/settings.json\<close>: no file (\<open>fs.access\<close> rejects), a file that cannot be
  read, text that \<open>JSON.parse\<close> rejects, or the parsed value.
  \<open>authMethod\<close> is the field \<open>method\<close> of \<open>GeminiAuthStatus\<close>.
\<close>

record auth_env =
  GEMINI_API_KEY :: "string option"
  GOOGLE_APPLICATION_CREDENTIALS :: "string option"
  GOOGLE_CLOUD_PROJECT :: "string option"

datatype settings_file =
    NoSettingsFile
  | UnreadableSettings
  | MalformedSettings
  | ParsedSettings jsval

datatype auth_method = google_login | api_key | vertex_ai | none

record GeminiAuthStatus =
  authenticated :: bool
  authMethod :: auth_method
  hasApiKey :: "bool option"
  hasEnvApiKey :: "bool option"
  hasCredentialsFile :: "bool option"
  error :: "string option"

text \<open>
  The \<open>try\<close> blocks around the settings file: \<open>selectedType\<close> is
  \<open>settings?.security?.auth?.selectedType\<close> when the file parses, and every failure is
  caught, leaving \<open>hasCredentialsFile = false\<close> and \<open>authType = null\<close>.
\<close>

definition selectedType :: "settings_file \<Rightarrow> jsval" where
  "selectedType file =
     (case file of
        ParsedSettings settings \<Rightarrow>
          getPropOpt (getPropOpt (getPropOpt settings ''security'') ''auth'') ''selectedType''
      | _ \<Rightarrow> JUndefined)"

definition authStatus :: "bool \<Rightarrow> auth_method \<Rightarrow> bool \<Rightarrow> bool \<Rightarrow> string option \<Rightarrow> GeminiAuthStatus" where
  "authStatus a m key file err =
     \<lparr>authenticated = a, authMethod = m, hasApiKey = Some key, hasEnvApiKey = Some key,
      hasCredentialsFile = Some file, error = err\<rparr>"

definition checkAuth :: "string option \<Rightarrow> auth_env \<Rightarrow> settings_file \<Rightarrow> js_error + GeminiAuthStatus" where
  "checkAuth path env file =
     (if \<not> present path then
        Inr \<lparr>authenticated = False, authMethod = none, hasApiKey = None, hasEnvApiKey = None,
             hasCredentialsFile = None, error = None\<rparr>
      else
        (let keySet = present (GEMINI_API_KEY env);
             hasVertexAi = (present (GOOGLE_APPLICATION_CREDENTIALS env) \<or>
                            present (GOOGLE_CLOUD_PROJECT env));
             authType = selectedType file;
             credentials = truthy authType
         in
         if keySet then Inr (authStatus True api_key keySet credentials None)
         else if hasVertexAi then Inr (authStatus True vertex_ai keySet credentials None)
         else if credentials then
           (case authType of
              JStr t \<Rightarrow>
                if startsWith t ''oauth'' then
                  Inr (authStatus True google_login keySet credentials None)
                else if t = ''api-key'' then
                  Inr (authStatus True api_key keySet credentials None)
                else if t = ''code-assist'' \<or> t = ''codeassist'' then
                  Inr (authStatus False google_login keySet credentials
                    (Some ''Code Assist authentication requires IDE integration. Please use \"gemini\" CLI to log in with a different method, or set GEMINI_API_KEY.''))
                else Inr (authStatus True google_login keySet credentials None)
            | _ \<Rightarrow> Inl TypeError)
         else
           Inr (authStatus False none keySet credentials
             (Some ''No authentication configured. Run \"gemini\" interactively to log in, or set GEMINI_API_KEY.''))))"

section \<open>The Auto-Mode Service\<close>

text \<open>
  \<open>auto-mode-service.ts\<close> is not among the sources: only its unit test and the route that
  calls \<open>getRunningAgents\<close> are. The definitions of this section are written from the
  specification. The test reaches the private table as a
  \<open>Map<string, {featureId, projectPath, isAutoMode}>\<close>; here the table is the list of
  its entries, so that two entries under one featureId can be written down at all.
\<close>

record RunningFeatureEntry =
  featureId :: string
  projectPath :: string
  isAutoMode :: bool

record service_state =
  runningFeatures :: "RunningFeatureEntry list"
  autoLoopRunning :: bool
  loopConfig :: "(string \<times> nat) option"
  emitted :: "string list"

definition initialService :: service_state where
  "initialService =
     \<lparr>runningFeatures = [], autoLoopRunning = False, loopConfig = None, emitted = []\<rparr>"

definition isRunning :: "service_state \<Rightarrow> string \<Rightarrow> bool" where
  "isRunning s fid = (fid \<in> set (map featureId (runningFeatures s)))"

datatype service_error = AlreadyRunning

text \<open>
  Modelled from the spec: the registration of a RunningFeatureEntry in
  \<open>AutoModeService\<close> (\<open>auto-mode-service.ts\<close>, missing) when an execution starts.
  Section 4.3: a feature is eligible only if it is not already in the
  RunningFeatureEntry map; the membership check and the registration are one step,
  with no suspension point between them. A start attempt for a feature that is
  already running registers nothing.
\<close>

definition registerFeature :: "service_state \<Rightarrow> RunningFeatureEntry \<Rightarrow> service_state" where
  "registerFeature s e =
     (if isRunning s (featureId e) then s
      else s\<lparr>runningFeatures := runningFeatures s @ [e]\<rparr>)"

text \<open>
  Modelled from the spec: the release of the entry in \<open>AutoModeService\<close>
  (\<open>auto-mode-service.ts\<close>, missing) when the execution completes, errors or is
  force-stopped (section 3, RunningFeatureEntry).
\<close>

definition releaseFeature :: "service_state \<Rightarrow> string \<Rightarrow> service_state" where
  "releaseFeature s fid =
     s\<lparr>runningFeatures := filter (\<lambda>e. featureId e \<noteq> fid) (runningFeatures s)\<rparr>"

text \<open>
  Modelled from the spec: \<open>AutoModeService.startAutoLoop\<close> (\<open>auto-mode-service.ts\<close>,
  missing). Section 4.3: it fails with an "already running" condition if a loop is
  already active, rejected at the call site; otherwise it marks the loop active and
  emits the event that announces the start. The result is what the call gives
  (\<open>Inl\<close> the rejection) and the state after it.
\<close>

definition startAutoLoop ::
  "service_state \<Rightarrow> string \<Rightarrow> nat \<Rightarrow> (service_error + unit) \<times> service_state" where
  "startAutoLoop s path maxConcurrency =
     (if autoLoopRunning s then (Inl AlreadyRunning, s)
      else (Inr (),
            s\<lparr>autoLoopRunning := True,
              loopConfig := Some (path, maxConcurrency),
              emitted := emitted s @ [''Auto mode started'']\<rparr>))"

text \<open>
  Modelled from the spec: \<open>AutoModeService.stopAutoLoop\<close> (\<open>auto-mode-service.ts\<close>,
  missing). Section 4.3: it stops the loop from accepting new features and returns the
  number of features running at that moment; in-flight work drains, so the table is
  left as it is. It returns 0 if no loop was active.
\<close>

definition stopAutoLoop :: "service_state \<Rightarrow> nat \<times> service_state" where
  "stopAutoLoop s =
     (if autoLoopRunning s
      then (length (runningFeatures s), s\<lparr>autoLoopRunning := False\<rparr>)
      else (0, s))"

text \<open>
  What a caller, or the loop itself, can do to the service, one step at a time. The
  runtime is single-threaded: concurrent requests are interleavings of these steps.
\<close>

datatype service_action =
    StartFeature RunningFeatureEntry
  | FinishFeature string
  | StartLoop string nat
  | StopLoop

fun serviceStep :: "service_state \<Rightarrow> service_action \<Rightarrow> service_state" where
  "serviceStep s (StartFeature e) = registerFeature s e"
| "serviceStep s (FinishFeature fid) = releaseFeature s fid"
| "serviceStep s (StartLoop path n) = snd (startAutoLoop s path n)"
| "serviceStep s StopLoop = snd (stopAutoLoop s)"

definition runService :: "service_action list \<Rightarrow> service_state" where
  "runService actions = foldl serviceStep initialService actions"

definition entriesFor :: "service_state \<Rightarrow> string \<Rightarrow> RunningFeatureEntry list" where
  "entriesFor s fid = filter (\<lambda>e. featureId e = fid) (runningFeatures s)"

text \<open>
  Modelled from the spec: how \<open>AutoModeService.getRunningAgents\<close>
  (\<open>auto-mode-service.ts\<close>, missing) derives \<open>projectName\<close>. Section 4.3: it is the
  final path segment of \<open>projectPath\<close>, the text after the last separator.
\<close>

definition finalSegment :: "string \<Rightarrow> string" where
  "finalSegment p = rev (takeWhile (\<lambda>c. c \<noteq> CHR ''/'') (rev p))"

record Feature =
  title :: "string option"
  description :: "string option"

datatype lookup_result =
    LookupThrows
  | LookupNull
  | LookupFound Feature

record RunningAgent =
  agentFeatureId :: string
  agentProjectPath :: string
  projectName :: string
  agentIsAutoMode :: bool
  agentTitle :: "string option"
  agentDescription :: "string option"

text \<open>
  Modelled from the spec: the enrichment of one entry in
  \<open>AutoModeService.getRunningAgents\<close> (\<open>auto-mode-service.ts\<close>, missing). Section 4.3:
  for each entry it attempts to enrich the basic entry with the feature's title and
  description by a lookup in the feature store, and a lookup that fails (it throws,
  or finds nothing) is swallowed, leaving the basic entry.
\<close>

definition enrich :: "(string \<Rightarrow> string \<Rightarrow> lookup_result) \<Rightarrow> RunningFeatureEntry \<Rightarrow> RunningAgent" where
  "enrich lookup e =
     (let basic = \<lparr>agentFeatureId = featureId e, agentProjectPath = projectPath e,
                   projectName = finalSegment (projectPath e),
                   agentIsAutoMode = isAutoMode e,
                   agentTitle = None, agentDescription = None\<rparr>
      in case lookup (projectPath e) (featureId e) of
           LookupThrows \<Rightarrow> basic
         | LookupNull \<Rightarrow> basic
         | LookupFound f \<Rightarrow> basic\<lparr>agentTitle := title f, agentDescription := description f\<rparr>)"

text \<open>
  Modelled from the spec: \<open>AutoModeService.getRunningAgents\<close> (\<open>auto-mode-service.ts\<close>,
  missing). Section 4.3: a snapshot read over the table, one agent per entry.
  \<open>Inl\<close> would be an exception that escapes the call.
\<close>

definition getRunningAgents ::
  "(string \<Rightarrow> string \<Rightarrow> lookup_result) \<Rightarrow> service_state \<Rightarrow> service_error + RunningAgent list" where
  "getRunningAgents lookup s = Inr (map (enrich lookup) (runningFeatures s))"

section \<open>Claims on the error taxonomy\<close>

text \<open>
  C10. \<open>mapError\<close> never returns the codes \<open>TIMEOUT\<close> or \<open>NOT_INSTALLED\<close>. A stderr text
  whose lower-cased form contains \<open>timeout\<close> and that matched none of the three earlier
  heuristics (authentication, rate limit, model) is classified as \<open>NETWORK_ERROR\<close>, since
  the network heuristic lists \<open>timeout\<close> and is tested before anything else could claim
  it. An input that matches no heuristic falls back to \<open>UNKNOWN\<close> with
  \<open>recoverable = False\<close>.
\<close>

theorem mapError_taxonomy:
  "code (mapError stderr exitCode) \<noteq> TIMEOUT \<and>
   code (mapError stderr exitCode) \<noteq> NOT_INSTALLED \<and>
   (includesStr (toLowerCase stderr) ''timeout'' \<and>
    \<not> authHeuristic (toLowerCase stderr) \<and>
    \<not> rateLimitHeuristic (toLowerCase stderr) \<and>
    \<not> modelHeuristic (toLowerCase stderr) \<longrightarrow>
      mapError stderr exitCode =
        \<lparr>code = NETWORK_ERROR,
         message = ''Network connection error'',
         recoverable = True,
         suggestion = Some ''Check your internet connection and try again''\<rparr>) \<and>
   (\<not> authHeuristic (toLowerCase stderr) \<and>
    \<not> rateLimitHeuristic (toLowerCase stderr) \<and>
    \<not> modelHeuristic (toLowerCase stderr) \<and>
    \<not> networkHeuristic (toLowerCase stderr) \<and>
    \<not> crashHeuristic (toLowerCase stderr) exitCode \<longrightarrow>
      code (mapError stderr exitCode) = UNKNOWN \<and>
      \<not> recoverable (mapError stderr exitCode))"
  by (simp add: mapError_def Let_def networkHeuristic_def)

theorem mapError_taxonomy_witness:
  "mapError ''Request TIMEOUT after 30s'' (Some 1) =
     \<lparr>code = NETWORK_ERROR,
      message = ''Network connection error'',
      recoverable = True,
      suggestion = Some ''Check your internet connection and try again''\<rparr> \<and>
   code (mapError ''segmentation fault'' (Some 1)) = UNKNOWN \<and>
   \<not> recoverable (mapError ''segmentation fault'' (Some 1))"
proof -
  have h1: "includesStr (toLowerCase ''Request TIMEOUT after 30s'') ''timeout'' \<and>
    \<not> authHeuristic (toLowerCase ''Request TIMEOUT after 30s'') \<and>
    \<not> rateLimitHeuristic (toLowerCase ''Request TIMEOUT after 30s'') \<and>
    \<not> modelHeuristic (toLowerCase ''Request TIMEOUT after 30s'')"
    by code_simp
  have h2: "\<not> authHeuristic (toLowerCase ''segmentation fault'') \<and>
    \<not> rateLimitHeuristic (toLowerCase ''segmentation fault'') \<and>
    \<not> modelHeuristic (toLowerCase ''segmentation fault'') \<and>
    \<not> networkHeuristic (toLowerCase ''segmentation fault'') \<and>
    \<not> crashHeuristic (toLowerCase ''segmentation fault'') (Some 1)"
    by code_simp
  from h1 mapError_taxonomy [of "''Request TIMEOUT after 30s''" "Some 1"]
  have a: "mapError ''Request TIMEOUT after 30s'' (Some 1) =
     \<lparr>code = NETWORK_ERROR,
      message = ''Network connection error'',
      recoverable = True,
      suggestion = Some ''Check your internet connection and try again''\<rparr>"
    by blast
  from h2 mapError_taxonomy [of "''segmentation fault''" "Some 1"]
  have b: "code (mapError ''segmentation fault'' (Some 1)) = UNKNOWN \<and>
   \<not> recoverable (mapError ''segmentation fault'' (Some 1))"
    by blast
  from a b show ?thesis by blast
qed

section \<open>Claims on the argv of the Gemini CLI\<close>

text \<open>
  C2, as amended. For options whose model id is set (defined and not empty) and is not
  \<open>auto\<close>, and whose working directory is set, the result of \<open>buildCliArgs\<close> with the
  prompt text appended is the argv
  \<open>--output-format stream-json --model <id> --sandbox false --approval-mode yolo
  --include-directories <cwd> <promptText>\<close>, in that order, where \<open><id>\<close> is the model id
  with \<open>gemini-\<close> put in front unless it starts with it already; and this is the argv
  \<open>executeQuery\<close> hands to the process spawner.
\<close>

theorem queryArgs_argv:
  assumes "model options = Some m" and "m \<noteq> []" and "m \<noteq> ''auto''"
    and "cwd options = Some d" and "d \<noteq> []"
    and "extractPromptText options = Inr promptText"
  shows "buildCliArgs options @ [promptText] =
           [''--output-format'', ''stream-json'',
            ''--model'', (if startsWith m ''gemini-'' then m else ''gemini-'' @ m),
            ''--sandbox'', ''false'',
            ''--approval-mode'', ''yolo'',
            ''--include-directories'', d,
            promptText] \<and>
         queryArgs options = Inr (buildCliArgs options @ [promptText]) \<and>
         (validateBareModelId env (model options) = None \<and> present (cliPath env) \<longrightarrow>
            executeQuery env options =
              runStream (isAbortError env) mapError
                (spawnJSONLProcess env (the (cliPath env))
                   (buildCliArgs options @ [promptText]) options))"
  using assms by (simp add: buildCliArgs_def queryArgs_def executeQuery_def present_def)

theorem queryArgs_argv_witness:
  "buildCliArgs \<lparr>prompt = PromptString ''fix the bug'', model = Some ''2.5-pro'',
                  cwd = Some ''/repo''\<rparr> @ [''fix the bug''] =
     [''--output-format'', ''stream-json'', ''--model'', ''gemini-2.5-pro'',
      ''--sandbox'', ''false'', ''--approval-mode'', ''yolo'',
      ''--include-directories'', ''/repo'', ''fix the bug''] \<and>
   executeQuery
     \<lparr>cliPath = Some ''/usr/local/bin/gemini'',
      validateBareModelId = (\<lambda>m. None),
      isAbortError = (\<lambda>e. excName e = ''AbortError''),
      spawnJSONLProcess = (\<lambda>path args opts.
         if args = [''--output-format'', ''stream-json'', ''--model'', ''gemini-2.5-pro'',
                    ''--sandbox'', ''false'', ''--approval-mode'', ''yolo'',
                    ''--include-directories'', ''/repo'', ''fix the bug'']
         then ([JObj [(''type'', JStr ''result''), (''status'', JStr ''success'')]], None)
         else ([], Some (plainError ''Error'' ''unexpected argv'')))\<rparr>
     \<lparr>prompt = PromptString ''fix the bug'', model = Some ''2.5-pro'', cwd = Some ''/repo''\<rparr> =
   ([ResultSuccess JUndefined], Completed)"
proof -
  let ?o = "\<lparr>prompt = PromptString ''fix the bug'', model = Some ''2.5-pro'',
             cwd = Some ''/repo''\<rparr>"
  let ?argv = "[''--output-format'', ''stream-json'', ''--model'', ''gemini-2.5-pro'',
                    ''--sandbox'', ''false'', ''--approval-mode'', ''yolo'',
                    ''--include-directories'', ''/repo'', ''fix the bug'']"
  let ?env = "\<lparr>cliPath = Some ''/usr/local/bin/gemini'',
      validateBareModelId = (\<lambda>m. None),
      isAbortError = (\<lambda>e. excName e = ''AbortError''),
      spawnJSONLProcess = (\<lambda>path args opts.
         if args = ?argv
         then ([JObj [(''type'', JStr ''result''), (''status'', JStr ''success'')]], None)
         else ([], Some (plainError ''Error'' ''unexpected argv'')))\<rparr>"
  have h1: "model ?o = Some ''2.5-pro''" by simp
  have h2: "''2.5-pro'' \<noteq> []" by simp
  have h3: "''2.5-pro'' \<noteq> ''auto''" by simp
  have h4: "cwd ?o = Some ''/repo''" by simp
  have h5: "''/repo'' \<noteq> []" by simp
  have h6: "extractPromptText ?o = Inr ''fix the bug''" by (simp add: extractPromptText_def)
  have h7: "validateBareModelId ?env (model ?o) = None \<and> present (cliPath ?env)"
    by (simp add: present_def)
  have a: "buildCliArgs ?o @ [''fix the bug''] =
           [''--output-format'', ''stream-json'',
            ''--model'', (if startsWith ''2.5-pro'' ''gemini-'' then ''2.5-pro''
                          else ''gemini-'' @ ''2.5-pro''),
            ''--sandbox'', ''false'',
            ''--approval-mode'', ''yolo'',
            ''--include-directories'', ''/repo'',
            ''fix the bug'']"
    using queryArgs_argv [OF h1 h2 h3 h4 h5 h6] by blast
  then have a': "buildCliArgs ?o @ [''fix the bug''] = ?argv" by simp
  have "executeQuery ?env ?o =
          runStream (isAbortError ?env) mapError
            (spawnJSONLProcess ?env (the (cliPath ?env))
               (buildCliArgs ?o @ [''fix the bug'']) ?o)"
    using queryArgs_argv [OF h1 h2 h3 h4 h5 h6, of ?env] h7 by blast
  then have "executeQuery ?env ?o =
          runStream (isAbortError ?env) mapError
            ([JObj [(''type'', JStr ''result''), (''status'', JStr ''success'')]], None)"
    by (simp only: a') simp
  moreover have "runStream (isAbortError ?env) mapError
            ([JObj [(''type'', JStr ''result''), (''status'', JStr ''success'')]], None) =
          ([ResultSuccess JUndefined], Completed)"
    by (simp add: runStream_def captureSession_def normalizeEvent_def field_def
        getPropOpt_def stamp_def)
  ultimately have b: "executeQuery ?env ?o = ([ResultSuccess JUndefined], Completed)"
    by simp
  from a' b show ?thesis by (rule conjI)
qed

text \<open>
  C2 as stated fails for the model id \<open>auto\<close>: \<open>buildCliArgs\<close> leaves the \<open>--model\<close> flag
  out for it, so the argv has no \<open>--model gemini-auto\<close>.
\<close>

theorem queryArgs_auto_counterexample:
  "queryArgs \<lparr>prompt = PromptString ''hi'', model = Some ''auto'', cwd = Some ''/repo''\<rparr> =
     Inr [''--output-format'', ''stream-json'', ''--sandbox'', ''false'',
          ''--approval-mode'', ''yolo'', ''--include-directories'', ''/repo'', ''hi''] \<and>
   queryArgs \<lparr>prompt = PromptString ''hi'', model = Some ''auto'', cwd = Some ''/repo''\<rparr> \<noteq>
     Inr [''--output-format'', ''stream-json'', ''--model'', ''gemini-auto'',
          ''--sandbox'', ''false'', ''--approval-mode'', ''yolo'',
          ''--include-directories'', ''/repo'', ''hi'']"
  by (simp add: queryArgs_def extractPromptText_def buildCliArgs_def present_def)

section \<open>Claims on the Auto-Mode Service\<close>

text \<open>
  C7. If a loop is already active, a call of \<open>startAutoLoop\<close> is rejected with the
  "already running" condition and leaves the state of the service, and with it the
  first loop, as it was. So of two calls in a row on a service with no loop, the first
  starts the loop and the second is rejected, whatever its arguments.
\<close>

theorem startAutoLoop_already_running:
  "(autoLoopRunning s \<longrightarrow> startAutoLoop s path n = (Inl AlreadyRunning, s)) \<and>
   (\<not> autoLoopRunning s \<longrightarrow>
      fst (startAutoLoop s path n) = Inr () \<and>
      autoLoopRunning (snd (startAutoLoop s path n)) \<and>
      startAutoLoop (snd (startAutoLoop s path n)) path' n' =
        (Inl AlreadyRunning, snd (startAutoLoop s path n)))"
  by (simp add: startAutoLoop_def)

theorem startAutoLoop_already_running_witness:
  "fst (startAutoLoop initialService ''/test/project'' 3) = Inr () \<and>
   startAutoLoop (snd (startAutoLoop initialService ''/test/project'' 3)) ''/test/project'' 3 =
     (Inl AlreadyRunning, snd (startAutoLoop initialService ''/test/project'' 3)) \<and>
   loopConfig (snd (startAutoLoop (snd (startAutoLoop initialService ''/test/project'' 3))
                      ''/other'' 5)) = Some (''/test/project'', 3)"
proof -
  have h: "\<not> autoLoopRunning initialService" by (simp add: initialService_def)
  have r: "autoLoopRunning (snd (startAutoLoop initialService ''/test/project'' 3))"
    using h startAutoLoop_already_running [of initialService "''/test/project''" 3] by blast
  have a: "fst (startAutoLoop initialService ''/test/project'' 3) = Inr () \<and>
      startAutoLoop (snd (startAutoLoop initialService ''/test/project'' 3)) ''/test/project'' 3 =
        (Inl AlreadyRunning, snd (startAutoLoop initialService ''/test/project'' 3))"
    using h startAutoLoop_already_running
      [of initialService "''/test/project''" 3 "''/test/project''" 3]
    by blast
  have b: "startAutoLoop (snd (startAutoLoop initialService ''/test/project'' 3)) ''/other'' 5 =
        (Inl AlreadyRunning, snd (startAutoLoop initialService ''/test/project'' 3))"
    using r startAutoLoop_already_running
      [of "snd (startAutoLoop initialService ''/test/project'' 3)" "''/other''" 5]
    by blast
  have c: "loopConfig (snd (startAutoLoop initialService ''/test/project'' 3)) =
             Some (''/test/project'', 3)"
    by (simp add: startAutoLoop_def initialService_def)
  from a b c show ?thesis by simp
qed

text \<open>
  The table of running features never holds two entries of one feature: every step of
  the service keeps the featureIds of the table distinct.
\<close>

lemma serviceStep_distinct:
  "distinct (map featureId (runningFeatures s)) \<Longrightarrow>
   distinct (map featureId (runningFeatures (serviceStep s a)))"
proof (cases a)
  case (StartFeature e)
  assume "distinct (map featureId (runningFeatures s))"
  then show ?thesis
    using StartFeature by (simp add: registerFeature_def isRunning_def)
next
  case (FinishFeature fid)
  assume "distinct (map featureId (runningFeatures s))"
  then show ?thesis
    using FinishFeature by (simp add: releaseFeature_def distinct_map_filter)
next
  case (StartLoop path n)
  assume "distinct (map featureId (runningFeatures s))"
  then show ?thesis
    using StartLoop by (simp add: startAutoLoop_def)
next
  case StopLoop
  assume "distinct (map featureId (runningFeatures s))"
  then show ?thesis
    using StopLoop by (simp add: stopAutoLoop_def)
qed

lemma foldl_serviceStep_distinct:
  "distinct (map featureId (runningFeatures s)) \<Longrightarrow>
   distinct (map featureId (runningFeatures (foldl serviceStep s actions)))"
  by (induction actions arbitrary: s) (simp_all add: serviceStep_distinct)

lemma distinct_filter_le_one:
  "distinct (map f xs) \<Longrightarrow> length (filter (\<lambda>x. f x = k) xs) \<le> 1"
proof (induction xs)
  case Nil
  then show ?case by simp
next
  case (Cons x xs)
  show ?case
  proof (cases "f x = k")
    case True
    with Cons.prems have "k \<notin> f ` set xs" by auto
    then have "filter (\<lambda>x. f x = k) xs = []" by (auto simp: filter_empty_conv)
    with True show ?thesis by simp
  next
    case False
    with Cons show ?thesis by simp
  qed
qed

text \<open>
  C1. In every state the service can reach from its initial state, by any sequence of
  start attempts, releases, loop starts and loop stops (concurrent requests are
  interleavings of these steps), the table of running features holds at most one entry
  per featureId.
\<close>

theorem single_flight:
  "length (entriesFor (runService actions) fid) \<le> 1"
proof -
  have "distinct (map featureId (runningFeatures initialService))"
    by (simp add: initialService_def)
  then have "distinct (map featureId (runningFeatures (runService actions)))"
    unfolding runService_def by (rule foldl_serviceStep_distinct)
  then show ?thesis
    unfolding entriesFor_def by (rule distinct_filter_le_one)
qed

text \<open>
  What "final path segment" says of a path: the path ends with it, it has no separator
  in it, and what stands before it is empty or ends with a separator.
\<close>

lemma finalSegment_is_last_segment:
  "\<exists>pre. p = pre @ finalSegment p \<and> (pre = [] \<or> last pre = CHR ''/'') \<and>
         CHR ''/'' \<notin> set (finalSegment p)"
proof -
  let ?P = "\<lambda>c. c \<noteq> CHR ''/''"
  let ?pre = "rev (dropWhile ?P (rev p))"
  have "rev (takeWhile ?P (rev p) @ dropWhile ?P (rev p)) = p"
    by (simp only: takeWhile_dropWhile_id rev_rev_ident)
  then have split: "p = ?pre @ finalSegment p"
    by (simp only: rev_append finalSegment_def)
  have sep: "?pre = [] \<or> last ?pre = CHR ''/''"
  proof (cases "dropWhile ?P (rev p) = []")
    case True
    then show ?thesis by simp
  next
    case False
    then have "\<not> ?P (hd (dropWhile ?P (rev p)))" by (rule hd_dropWhile)
    moreover have "last ?pre = hd (dropWhile ?P (rev p))"
      using False by (simp add: last_rev)
    ultimately show ?thesis by simp
  qed
  have "\<forall>c \<in> set (takeWhile ?P (rev p)). ?P c"
    by (auto dest: set_takeWhileD)
  then have nosep: "CHR ''/'' \<notin> set (finalSegment p)"
    by (auto simp: finalSegment_def)
  from split sep nosep show ?thesis by blast
qed

text \<open>
  C8. \<open>getRunningAgents\<close> lets no exception escape, whatever the table holds and
  whatever the lookups do: it returns one agent per entry, in order, with the entry's
  featureId, projectPath and isAutoMode; where the lookup for an entry throws or
  returns null, the agent's title and description are undefined; and every agent's
  projectName is the final path segment of its projectPath.
\<close>

theorem getRunningAgents_swallows_lookup_failures:
  "\<exists>agents.
     getRunningAgents lookup s = Inr agents \<and>
     length agents = length (runningFeatures s) \<and>
     (\<forall>i < length (runningFeatures s).
        agentFeatureId (agents ! i) = featureId (runningFeatures s ! i) \<and>
        agentProjectPath (agents ! i) = projectPath (runningFeatures s ! i) \<and>
        agentIsAutoMode (agents ! i) = isAutoMode (runningFeatures s ! i) \<and>
        projectName (agents ! i) = finalSegment (agentProjectPath (agents ! i)) \<and>
        (\<exists>pre. agentProjectPath (agents ! i) = pre @ projectName (agents ! i) \<and>
               (pre = [] \<or> last pre = CHR ''/'') \<and>
               CHR ''/'' \<notin> set (projectName (agents ! i))) \<and>
        (lookup (projectPath (runningFeatures s ! i)) (featureId (runningFeatures s ! i))
            = LookupThrows \<or>
         lookup (projectPath (runningFeatures s ! i)) (featureId (runningFeatures s ! i))
            = LookupNull \<longrightarrow>
           agentTitle (agents ! i) = None \<and> agentDescription (agents ! i) = None))"
proof -
  have each: "\<And>e. agentFeatureId (enrich lookup e) = featureId e \<and>
      agentProjectPath (enrich lookup e) = projectPath e \<and>
      agentIsAutoMode (enrich lookup e) = isAutoMode e \<and>
      projectName (enrich lookup e) = finalSegment (projectPath e) \<and>
      (lookup (projectPath e) (featureId e) = LookupThrows \<or>
       lookup (projectPath e) (featureId e) = LookupNull \<longrightarrow>
         agentTitle (enrich lookup e) = None \<and> agentDescription (enrich lookup e) = None)"
    by (simp add: enrich_def Let_def split: lookup_result.split)
  show ?thesis
    unfolding getRunningAgents_def
    using each finalSegment_is_last_segment by simp
qed

theorem getRunningAgents_swallows_lookup_failures_witness:
  "getRunningAgents (\<lambda>path fid. LookupThrows)
     (initialService\<lparr>runningFeatures :=
        [\<lparr>featureId = ''feature-error'', projectPath = ''/project-error'',
          isAutoMode = True\<rparr>]\<rparr>) =
   Inr [\<lparr>agentFeatureId = ''feature-error'', agentProjectPath = ''/project-error'',
         projectName = ''project-error'', agentIsAutoMode = True,
         agentTitle = None, agentDescription = None\<rparr>]"
proof -
  let ?s = "initialService\<lparr>runningFeatures :=
        [\<lparr>featureId = ''feature-error'', projectPath = ''/project-error'',
          isAutoMode = True\<rparr>]\<rparr>"
  let ?lookup = "\<lambda>(path::string) (fid::string). LookupThrows"
  obtain agents where a: "getRunningAgents ?lookup ?s = Inr agents"
    and l: "length agents = length (runningFeatures ?s)"
    and p: "\<forall>i < length (runningFeatures ?s).
        agentFeatureId (agents ! i) = featureId (runningFeatures ?s ! i) \<and>
        agentProjectPath (agents ! i) = projectPath (runningFeatures ?s ! i) \<and>
        agentIsAutoMode (agents ! i) = isAutoMode (runningFeatures ?s ! i) \<and>
        projectName (agents ! i) = finalSegment (agentProjectPath (agents ! i)) \<and>
        (\<exists>pre. agentProjectPath (agents ! i) = pre @ projectName (agents ! i) \<and>
               (pre = [] \<or> last pre = CHR ''/'') \<and>
               CHR ''/'' \<notin> set (projectName (agents ! i))) \<and>
        (?lookup (projectPath (runningFeatures ?s ! i)) (featureId (runningFeatures ?s ! i))
            = LookupThrows \<or>
         ?lookup (projectPath (runningFeatures ?s ! i)) (featureId (runningFeatures ?s ! i))
            = LookupNull \<longrightarrow>
           agentTitle (agents ! i) = None \<and> agentDescription (agents ! i) = None)"
    using getRunningAgents_swallows_lookup_failures [of ?lookup ?s] by blast
  from l obtain x where x: "agents = [x]"
    by (cases agents) simp_all
  from p x have "agentFeatureId x = ''feature-error'' \<and>
      agentProjectPath x = ''/project-error'' \<and> agentIsAutoMode x = True \<and>
      projectName x = finalSegment ''/project-error'' \<and>
      agentTitle x = None \<and> agentDescription x = None"
    by simp
  moreover have "finalSegment ''/project-error'' = ''project-error''"
    by (simp add: finalSegment_def)
  ultimately have "x = \<lparr>agentFeatureId = ''feature-error'', agentProjectPath = ''/project-error'',
         projectName = ''project-error'', agentIsAutoMode = True,
         agentTitle = None, agentDescription = None\<rparr>"
    by simp
  with a x show ?thesis by simp
qed

section \<open>Claims on authentication\<close>

text \<open>
  C9. Whenever the CLI is detected and \<open>GEMINI_API_KEY\<close> is set (that is, has a value
  that is not the empty string, which is what the source tests),
  \<open>checkAuth\<close> returns \<open>authenticated = true\<close> with method \<open>api_key\<close>, whatever is at
  \<open>~/.gemini/settings.json\<close> and whatever the other variables hold.
\<close>

theorem checkAuth_api_key_wins:
  assumes "present path" and "present (GEMINI_API_KEY env)"
  shows "\<exists>st. checkAuth path env file = Inr st \<and> authenticated st \<and> authMethod st = api_key \<and>
              hasApiKey st = Some True \<and> error st = None"
  using assms by (simp add: checkAuth_def Let_def authStatus_def)

theorem checkAuth_api_key_wins_witness:
  "checkAuth (Some ''/usr/local/bin/gemini'')
     \<lparr>GEMINI_API_KEY = Some ''AIza-key'', GOOGLE_APPLICATION_CREDENTIALS = None,
      GOOGLE_CLOUD_PROJECT = Some ''my-project''\<rparr>
     (ParsedSettings
        (JObj [(''security'', JObj [(''auth'', JObj [(''selectedType'', JStr ''oauth-personal'')])])])) =
   Inr \<lparr>authenticated = True, authMethod = api_key, hasApiKey = Some True,
        hasEnvApiKey = Some True, hasCredentialsFile = Some True, error = None\<rparr>"
proof -
  let ?env = "\<lparr>GEMINI_API_KEY = Some ''AIza-key'', GOOGLE_APPLICATION_CREDENTIALS = None,
      GOOGLE_CLOUD_PROJECT = Some ''my-project''\<rparr>"
  let ?file = "ParsedSettings
        (JObj [(''security'', JObj [(''auth'', JObj [(''selectedType'', JStr ''oauth-personal'')])])])"
  have h1: "present (Some ''/usr/local/bin/gemini'')" by (simp add: present_def)
  have h2: "present (GEMINI_API_KEY ?env)" by (simp add: present_def)
  obtain st where st: "checkAuth (Some ''/usr/local/bin/gemini'') ?env ?file = Inr st"
    and "authenticated st" and "authMethod st = api_key"
    using checkAuth_api_key_wins [OF h1 h2, of ?file] by blast
  have "hasCredentialsFile st = Some True \<and> hasEnvApiKey st = Some True \<and>
        hasApiKey st = Some True \<and> error st = None \<and> authenticated st \<and> authMethod st = api_key"
    using st
    by (auto simp add: checkAuth_def Let_def authStatus_def present_def selectedType_def
        getPropOpt_def)
  then have "st = \<lparr>authenticated = True, authMethod = api_key, hasApiKey = Some True,
        hasEnvApiKey = Some True, hasCredentialsFile = Some True, error = None\<rparr>"
    by simp
  with st show ?thesis by simp
qed

section \<open>Claims on executeQuery\<close>

text \<open>
  C5. Let the stream of the subprocess throw \<open>exc\<close> after its events have been
  consumed. If \<open>exc\<close> is an abort (\<open>isAbortError\<close> holds of it), \<open>executeQuery\<close> ends its
  sequence of messages normally, raising nothing, and the classifier has no part in
  it: the run ends the same way under every classifier put in the place of
  \<open>mapError\<close>. If \<open>exc\<close> is not an abort and is a failure that carries stderr (an
  \<open>Error\<close> object with a \<open>stderr\<close> property), \<open>executeQuery\<close> raises a \<open>GeminiError\<close>
  built from the classification by \<open>mapError\<close> of the stderr text (of the message,
  when the stderr text is empty), and not the raw error.
\<close>

theorem executeQuery_abort_and_failure:
  assumes "validateBareModelId env (model options) = None"
    and "present (cliPath env)"
    and "queryArgs options = Inr cliArgs"
    and "spawnJSONLProcess env (the (cliPath env)) cliArgs options = (events, Some exc)"
    and "consumeEvents JUndefined events = (msgs, None)"
  shows "(isAbortError env exc \<longrightarrow>
            executeQuery env options = (msgs, Completed) \<and>
            (\<forall>classify. runStream (isAbortError env) classify (events, Some exc) =
                          (msgs, Completed))) \<and>
         (\<not> isAbortError env exc \<and> isErrorInstance exc \<and> hasStderr exc \<longrightarrow>
            executeQuery env options =
              (msgs, Raised (GeminiError
                 (code (mapError (if present (excStderr exc) then the (excStderr exc)
                                  else excMessage exc) (excExitCode exc)))
                 (message (mapError (if present (excStderr exc) then the (excStderr exc)
                                     else excMessage exc) (excExitCode exc)))
                 (recoverable (mapError (if present (excStderr exc) then the (excStderr exc)
                                         else excMessage exc) (excExitCode exc)))
                 (suggestion (mapError (if present (excStderr exc) then the (excStderr exc)
                                        else excMessage exc) (excExitCode exc))))) \<and>
            executeQuery env options \<noteq> (msgs, Raised (Raw exc)))"
  using assms
  by (simp add: executeQuery_def runStream_def catchBlock_def Let_def)

theorem executeQuery_abort_and_failure_witness:
  "executeQuery
     \<lparr>cliPath = Some ''/usr/local/bin/gemini'',
      validateBareModelId = (\<lambda>m. None),
      isAbortError = (\<lambda>e. excName e = ''AbortError''),
      spawnJSONLProcess = (\<lambda>path args opts.
         ([JObj [(''type'', JStr ''message''), (''role'', JStr ''assistant''),
                 (''content'', JStr ''working'')]],
          Some \<lparr>isErrorInstance = True, excName = ''AbortError'',
                excMessage = ''The operation was aborted'', hasStderr = True,
                excStderr = Some ''killed'', excExitCode = None\<rparr>))\<rparr>
     \<lparr>prompt = PromptString ''hi'', model = Some ''2.5-flash'', cwd = Some ''/repo''\<rparr> =
   ([AssistantMessage JUndefined [TextBlock (JStr ''working'')]], Completed) \<and>
   executeQuery
     \<lparr>cliPath = Some ''/usr/local/bin/gemini'',
      validateBareModelId = (\<lambda>m. None),
      isAbortError = (\<lambda>e. excName e = ''AbortError''),
      spawnJSONLProcess = (\<lambda>path args opts.
         ([JObj [(''type'', JStr ''message''), (''role'', JStr ''assistant''),
                 (''content'', JStr ''working'')]],
          Some \<lparr>isErrorInstance = True, excName = ''Error'',
                excMessage = ''Process exited with code 1'', hasStderr = True,
                excStderr = Some ''Error 429: Too Many Requests'',
                excExitCode = Some 1\<rparr>))\<rparr>
     \<lparr>prompt = PromptString ''hi'', model = Some ''2.5-flash'', cwd = Some ''/repo''\<rparr> =
   ([AssistantMessage JUndefined [TextBlock (JStr ''working'')]],
    Raised (GeminiError RATE_LIMITED ''Gemini API rate limit exceeded'' True
      (Some ''Wait a few minutes and try again. Free tier: 60 req/min, 1000 req/day'')))"
proof -
  let ?events = "[JObj [(''type'', JStr ''message''), (''role'', JStr ''assistant''),
                 (''content'', JStr ''working'')]]"
  let ?abort = "\<lparr>isErrorInstance = True, excName = ''AbortError'',
                excMessage = ''The operation was aborted'', hasStderr = True,
                excStderr = Some ''killed'', excExitCode = None\<rparr>"
  let ?fail = "\<lparr>isErrorInstance = True, excName = ''Error'',
                excMessage = ''Process exited with code 1'', hasStderr = True,
                excStderr = Some ''Error 429: Too Many Requests'',
                excExitCode = Some 1\<rparr>"
  let ?envA = "\<lparr>cliPath = Some ''/usr/local/bin/gemini'',
      validateBareModelId = (\<lambda>m. None),
      isAbortError = (\<lambda>e. excName e = ''AbortError''),
      spawnJSONLProcess = (\<lambda>path args opts. (?events, Some ?abort))\<rparr>"
  let ?envF = "\<lparr>cliPath = Some ''/usr/local/bin/gemini'',
      validateBareModelId = (\<lambda>m. None),
      isAbortError = (\<lambda>e. excName e = ''AbortError''),
      spawnJSONLProcess = (\<lambda>path args opts. (?events, Some ?fail))\<rparr>"
  let ?o = "\<lparr>prompt = PromptString ''hi'', model = Some ''2.5-flash'', cwd = Some ''/repo''\<rparr>"
  let ?msgs = "[AssistantMessage JUndefined [TextBlock (JStr ''working'')]]"
  have a1: "validateBareModelId ?envA (model ?o) = None" by simp
  have a2: "present (cliPath ?envA)" by (simp add: present_def)
  have f1: "validateBareModelId ?envF (model ?o) = None" by simp
  have f2: "present (cliPath ?envF)" by (simp add: present_def)
  have q: "queryArgs ?o = Inr (buildCliArgs ?o @ [''hi''])"
    by (simp add: queryArgs_def extractPromptText_def)
  have a4: "spawnJSONLProcess ?envA (the (cliPath ?envA)) (buildCliArgs ?o @ [''hi'']) ?o =
              (?events, Some ?abort)" by simp
  have f4: "spawnJSONLProcess ?envF (the (cliPath ?envF)) (buildCliArgs ?o @ [''hi'']) ?o =
              (?events, Some ?fail)" by simp
  have c: "consumeEvents JUndefined ?events = (?msgs, None)"
    by (simp add: captureSession_def normalizeEvent_def field_def getPropOpt_def stamp_def)
  have ab: "isAbortError ?envA ?abort" by simp
  have nf: "\<not> isAbortError ?envF ?fail \<and> isErrorInstance ?fail \<and> hasStderr ?fail" by simp
  have A: "executeQuery ?envA ?o = (?msgs, Completed)"
    using executeQuery_abort_and_failure [OF a1 a2 q a4 c] ab by blast
  have F: "executeQuery ?envF ?o =
      (?msgs, Raised (GeminiError
         (code (mapError (if present (excStderr ?fail) then the (excStderr ?fail)
                          else excMessage ?fail) (excExitCode ?fail)))
         (message (mapError (if present (excStderr ?fail) then the (excStderr ?fail)
                             else excMessage ?fail) (excExitCode ?fail)))
         (recoverable (mapError (if present (excStderr ?fail) then the (excStderr ?fail)
                                 else excMessage ?fail) (excExitCode ?fail)))
         (suggestion (mapError (if present (excStderr ?fail) then the (excStderr ?fail)
                                else excMessage ?fail) (excExitCode ?fail)))))"
    using executeQuery_abort_and_failure [OF f1 f2 q f4 c] nf by blast
  have m: "mapError ''Error 429: Too Many Requests'' (Some 1) =
      \<lparr>code = RATE_LIMITED, message = ''Gemini API rate limit exceeded'',
       recoverable = True,
       suggestion = Some ''Wait a few minutes and try again. Free tier: 60 req/min, 1000 req/day''\<rparr>"
    by code_simp
  have F': "executeQuery ?envF ?o =
     (?msgs, Raised (GeminiError RATE_LIMITED ''Gemini API rate limit exceeded'' True
      (Some ''Wait a few minutes and try again. Free tier: 60 req/min, 1000 req/day'')))"
    using F by (simp add: present_def m)
  from A F' show ?thesis by (rule conjI)
qed

section \<open>Claims on the normalization of tool calls and events\<close>

lemma mapThrowing_all_Inr:
  "(\<And>x. x \<in> set xs \<Longrightarrow> f x = Inr (g x)) \<Longrightarrow> mapThrowing f xs = Inr (map g xs)"
  by (induction xs) simp_all

lemma mapThrowing_Inl:
  "x \<in> set xs \<Longrightarrow> f x = Inl TypeError \<Longrightarrow> mapThrowing f xs = Inl TypeError"
proof (induction xs)
  case Nil
  then show ?case by simp
next
  case (Cons a xs)
  show ?case
  proof (cases "f a")
    case (Inl e)
    then show ?thesis by (cases e) simp
  next
    case (Inr y)
    with Cons.prems have "x \<in> set xs" by auto
    with Cons have "mapThrowing f xs = Inl TypeError" by blast
    with Inr show ?thesis by simp
  qed
qed

lemma normalizeTodo_readable:
  "t \<noteq> JNull \<Longrightarrow> t \<noteq> JUndefined \<Longrightarrow>
   normalizeTodo t =
     Inr (JObj
       [(''content'', if truthy (getPropOpt t ''description'')
                      then getPropOpt t ''description'' else JStr []),
        (''status'', if getPropOpt t ''status'' = JStr ''cancelled''
                     then JStr ''completed'' else getPropOpt t ''status''),
        (''activeForm'', if truthy (getPropOpt t ''description'')
                         then getPropOpt t ''description'' else JStr [])])"
  by (cases t) (simp_all add: normalizeTodo_def getPropOpt_def)

lemma normalizeTodo_null:
  "t = JNull \<or> t = JUndefined \<Longrightarrow> normalizeTodo t = Inl TypeError"
  by (auto simp: normalizeTodo_def)

lemma mapThrowing_normalizeTodo:
  "mapThrowing normalizeTodo todos =
     (if JNull \<in> set todos \<or> JUndefined \<in> set todos then Inl TypeError
      else Inr (map (\<lambda>t. JObj
       [(''content'', if truthy (getPropOpt t ''description'')
                      then getPropOpt t ''description'' else JStr []),
        (''status'', if getPropOpt t ''status'' = JStr ''cancelled''
                     then JStr ''completed'' else getPropOpt t ''status''),
        (''activeForm'', if truthy (getPropOpt t ''description'')
                         then getPropOpt t ''description'' else JStr [])]) todos))"
proof (cases "JNull \<in> set todos \<or> JUndefined \<in> set todos")
  case True
  then obtain t where "t \<in> set todos" and "t = JNull \<or> t = JUndefined" by blast
  then have "mapThrowing normalizeTodo todos = Inl TypeError"
    by (intro mapThrowing_Inl [where x = t]) (simp_all add: normalizeTodo_null)
  with True show ?thesis by simp
next
  case False
  then have "\<And>t. t \<in> set todos \<Longrightarrow> t \<noteq> JNull \<and> t \<noteq> JUndefined" by blast
  then show ?thesis
    using False by (simp add: mapThrowing_all_Inr normalizeTodo_readable)
qed

text \<open>
  C6, as amended. For the tool \<open>write_todos\<close> and an input whose \<open>todos\<close> is an array
  with no \<open>null\<close> element, the normalized input is \<open>{todos: [...]}\<close> with one todo
  per todo of the input, in order, each of the shape \<open>{content, status, activeForm}\<close>:
  \<open>content\<close> and \<open>activeForm\<close> are the todo's \<open>description\<close>, or the empty string when
  the description is absent (or falsy); \<open>status\<close> is \<open>completed\<close> when the todo's status
  is \<open>cancelled\<close> and the todo's status otherwise, so \<open>pending\<close>, \<open>in_progress\<close> and
  \<open>completed\<close> stay. The tool name \<open>write_todos\<close> becomes \<open>TodoWrite\<close>. For every other
  tool name the input is returned as it is.
\<close>

theorem write_todos_normalization:
  assumes "getProp input ''todos'' = Inr (JArr todos)"
    and "\<forall>t \<in> set todos. t \<noteq> JNull \<and> t \<noteq> JUndefined"
  shows "(\<exists>ts. normalizeGeminiToolInput (JStr ''write_todos'') input =
                 Inr (JObj [(''todos'', JArr ts)]) \<and>
               length ts = length todos \<and>
               (\<forall>i < length todos. \<exists>c st.
                  ts ! i = JObj [(''content'', c), (''status'', st), (''activeForm'', c)] \<and>
                  c = (if truthy (getPropOpt (todos ! i) ''description'')
                       then getPropOpt (todos ! i) ''description'' else JStr []) \<and>
                  (getPropOpt (todos ! i) ''description'' = JUndefined \<longrightarrow> c = JStr []) \<and>
                  (getPropOpt (todos ! i) ''status'' = JStr ''cancelled'' \<longrightarrow>
                     st = JStr ''completed'') \<and>
                  (getPropOpt (todos ! i) ''status'' \<noteq> JStr ''cancelled'' \<longrightarrow>
                     st = getPropOpt (todos ! i) ''status''))) \<and>
         normalizeGeminiToolName (JStr ''write_todos'') = Inr (ToolName (JStr ''TodoWrite'')) \<and>
         (\<forall>toolName other. toolName \<noteq> JStr ''write_todos'' \<longrightarrow>
            normalizeGeminiToolInput toolName other = Inr other)"
proof -
  from assms(2) have nonull: "\<not> (JNull \<in> set todos \<or> JUndefined \<in> set todos)" by blast
  have name: "normalizeGeminiToolName (JStr ''write_todos'') = Inr (ToolName (JStr ''TodoWrite''))"
    by (simp add: normalizeGeminiToolName_def GEMINI_TOOL_NAME_MAP_def)
  have others: "\<forall>toolName other. toolName \<noteq> JStr ''write_todos'' \<longrightarrow>
            normalizeGeminiToolInput toolName other = Inr other"
    by (simp add: normalizeGeminiToolInput_def)
  let ?shape = "\<lambda>t. JObj
       [(''content'', if truthy (getPropOpt t ''description'')
                      then getPropOpt t ''description'' else JStr []),
        (''status'', if getPropOpt t ''status'' = JStr ''cancelled''
                     then JStr ''completed'' else getPropOpt t ''status''),
        (''activeForm'', if truthy (getPropOpt t ''description'')
                         then getPropOpt t ''description'' else JStr [])]"
  have "normalizeGeminiToolInput (JStr ''write_todos'') input =
          Inr (JObj [(''todos'', JArr (map ?shape todos))])"
    using assms(1) nonull
    by (simp add: normalizeGeminiToolInput_def mapThrowing_normalizeTodo)
  moreover have "length (map ?shape todos) = length todos" by simp
  moreover have "\<forall>i < length todos. \<exists>c st.
                  map ?shape todos ! i =
                    JObj [(''content'', c), (''status'', st), (''activeForm'', c)] \<and>
                  c = (if truthy (getPropOpt (todos ! i) ''description'')
                       then getPropOpt (todos ! i) ''description'' else JStr []) \<and>
                  (getPropOpt (todos ! i) ''description'' = JUndefined \<longrightarrow> c = JStr []) \<and>
                  (getPropOpt (todos ! i) ''status'' = JStr ''cancelled'' \<longrightarrow>
                     st = JStr ''completed'') \<and>
                  (getPropOpt (todos ! i) ''status'' \<noteq> JStr ''cancelled'' \<longrightarrow>
                     st = getPropOpt (todos ! i) ''status'')"
    by simp
  ultimately show ?thesis using name others by blast
qed

theorem write_todos_normalization_witness:
  "normalizeGeminiToolInput (JStr ''write_todos'')
     (JObj [(''todos'', JArr
        [JObj [(''description'', JStr ''Write tests''), (''status'', JStr ''cancelled'')],
         JObj [(''status'', JStr ''in_progress'')]])]) =
   Inr (JObj [(''todos'', JArr
        [JObj [(''content'', JStr ''Write tests''), (''status'', JStr ''completed''),
               (''activeForm'', JStr ''Write tests'')],
         JObj [(''content'', JStr []), (''status'', JStr ''in_progress''),
               (''activeForm'', JStr [])]])])"
proof -
  let ?t0 = "JObj [(''description'', JStr ''Write tests''), (''status'', JStr ''cancelled'')]"
  let ?t1 = "JObj [(''status'', JStr ''in_progress'')]"
  let ?input = "JObj [(''todos'', JArr [?t0, ?t1])]"
  have h1: "getProp ?input ''todos'' = Inr (JArr [?t0, ?t1])" by simp
  have h2: "\<forall>t \<in> set [?t0, ?t1]. t \<noteq> JNull \<and> t \<noteq> JUndefined" by simp
  obtain ts where r: "normalizeGeminiToolInput (JStr ''write_todos'') ?input =
                 Inr (JObj [(''todos'', JArr ts)])"
    and l: "length ts = length [?t0, ?t1]"
    and p: "\<forall>i < length [?t0, ?t1]. \<exists>c st.
                  ts ! i = JObj [(''content'', c), (''status'', st), (''activeForm'', c)] \<and>
                  c = (if truthy (getPropOpt ([?t0, ?t1] ! i) ''description'')
                       then getPropOpt ([?t0, ?t1] ! i) ''description'' else JStr []) \<and>
                  (getPropOpt ([?t0, ?t1] ! i) ''description'' = JUndefined \<longrightarrow> c = JStr []) \<and>
                  (getPropOpt ([?t0, ?t1] ! i) ''status'' = JStr ''cancelled'' \<longrightarrow>
                     st = JStr ''completed'') \<and>
                  (getPropOpt ([?t0, ?t1] ! i) ''status'' \<noteq> JStr ''cancelled'' \<longrightarrow>
                     st = getPropOpt ([?t0, ?t1] ! i) ''status'')"
    using write_todos_normalization [OF h1 h2] by blast
  from l obtain a b where ts: "ts = [a, b]"
    by (cases ts; cases "tl ts") auto
  from p [rule_format, of 0] ts have a: "a = JObj [(''content'', JStr ''Write tests''),
      (''status'', JStr ''completed''), (''activeForm'', JStr ''Write tests'')]"
    by (auto simp: getPropOpt_def)
  from p [rule_format, of 1] ts have b: "b = JObj [(''content'', JStr []),
      (''status'', JStr ''in_progress''), (''activeForm'', JStr [])]"
    by (auto simp: getPropOpt_def)
  from r ts a b show ?thesis by simp
qed

text \<open>
  C6 as stated fails where the \<open>todos\<close> array has a \<open>null\<close> element: reading the
  element's \<open>description\<close> throws a TypeError, and no normalized input comes back.
\<close>

theorem write_todos_null_counterexample:
  "normalizeGeminiToolInput (JStr ''write_todos'')
     (JObj [(''todos'', JArr
        [JObj [(''description'', JStr ''Write tests''), (''status'', JStr ''pending'')],
         JNull])]) = Inl TypeError"
  by (simp add: normalizeGeminiToolInput_def normalizeTodo_def)

lemma interpolate_printable:
  "interpolate vs = None \<longleftrightarrow> (\<forall>v \<in> set vs. printable v)"
  by (induction vs) (auto simp: printable_def split: sum.splits)

lemma interpolate_cases:
  "interpolate vs = (if \<forall>v \<in> set vs. printable v then None else Some TypeError)"
proof (cases "interpolate vs")
  case None
  then show ?thesis using interpolate_printable by simp
next
  case (Some e)
  then have "\<not> (\<forall>v \<in> set vs. printable v)"
    using interpolate_printable [of vs] by simp
  moreover have "e = TypeError" by (cases e) simp
  ultimately show ?thesis using Some by simp
qed

lemma getProp_field:
  "e \<noteq> JNull \<Longrightarrow> e \<noteq> JUndefined \<Longrightarrow> getProp e k = Inr (field e k)"
  by (cases e) (simp_all add: field_def getPropOpt_def)

lemma getProp_null:
  "e = JNull \<or> e = JUndefined \<Longrightarrow> getProp e k = Inl TypeError"
  by auto

lemma normalizeGeminiToolName_returns:
  "(\<exists>n. normalizeGeminiToolName v = Inr n) \<longleftrightarrow> printable v"
  by (auto simp: normalizeGeminiToolName_def printable_def split: sum.splits option.splits)

lemma normalizeGeminiToolInput_returns:
  "(\<exists>i. normalizeGeminiToolInput toolName p = Inr i) \<longleftrightarrow>
   (toolName = JStr ''write_todos'' \<longrightarrow> todosReadable p)"
proof (cases "toolName = JStr ''write_todos''")
  case False
  then show ?thesis by (simp add: normalizeGeminiToolInput_def)
next
  case True
  show ?thesis
  proof (cases "p = JNull \<or> p = JUndefined")
    case True
    then have "getProp p ''todos'' = Inl TypeError" by (rule getProp_null)
    with True \<open>toolName = JStr ''write_todos''\<close> show ?thesis
      by (auto simp: normalizeGeminiToolInput_def todosReadable_def)
  next
    case False
    then have g: "getProp p ''todos'' = Inr (getPropOpt p ''todos'')"
      using getProp_field [of p "''todos''"] by (simp add: field_def)
    show ?thesis
      using \<open>toolName = JStr ''write_todos''\<close> False g
      by (cases "getPropOpt p ''todos''")
         (simp_all add: normalizeGeminiToolInput_def todosReadable_def
            mapThrowing_normalizeTodo)
  qed
qed

lemma normalizeToolUse_returns:
  "(\<exists>m. normalizeToolUse e = Inr m) \<longleftrightarrow>
   (printable (field e ''tool_name'') \<and>
    (field e ''tool_name'' = JStr ''write_todos'' \<longrightarrow> todosReadable (field e ''parameters'')))"
proof -
  have "(\<exists>m. normalizeToolUse e = Inr m) \<longleftrightarrow>
        (\<exists>n. normalizeGeminiToolName (field e ''tool_name'') = Inr n) \<and>
        (\<exists>i. normalizeGeminiToolInput (field e ''tool_name'') (field e ''parameters'') = Inr i)"
    by (auto simp: normalizeToolUse_def split: sum.splits)
  then show ?thesis
    by (simp only: normalizeGeminiToolName_returns normalizeGeminiToolInput_returns)
qed

lemma normalizeToolResult_returns:
  "(\<exists>m. normalizeToolResult e = Inr m) \<longleftrightarrow>
   (field e ''status'' = JStr ''error'' \<longrightarrow> printable (field e ''output''))"
  by (auto simp: normalizeToolResult_def printable_def split: sum.splits)

lemma normalizeEvent_unknown_tag:
  assumes "e \<noteq> JNull" and "e \<noteq> JUndefined" and "field e ''type'' \<notin> documentedTags"
  shows "normalizeEvent e =
           (if printable (field e ''type'') then Inr None else Inl TypeError)"
  using assms getProp_field [of e "''type''"]
  by (simp add: normalizeEvent_def documentedTags_def interpolate_cases)

section \<open>Totality of normalizeEvent\<close>

text \<open>
  C3, as amended. \<open>normalizeEvent\<close> returns (a message or \<open>null\<close>) exactly on the
  events described by \<open>normalizable\<close>, and throws a TypeError on every other: on
  \<open>null\<close>; on a \<open>write_todos\<close> tool call whose parameters are \<open>null\<close> or missing or
  whose \<open>todos\<close> array has a \<open>null\<close> element; and where a value it turns into text
  (the session id and model of an init event, a tool name, the output of a failed
  tool result, the status and token count of a result, an unknown type tag) is or
  contains an object that has an own \<open>toString\<close> property. In particular every event
  other than \<open>null\<close> whose type tag is outside the documented set and can be turned
  into text (as every string, number, boolean and missing tag can) is mapped to
  \<open>null\<close>.
\<close>

theorem normalizeEvent_total_on_normalizable:
  "((\<exists>m. normalizeEvent e = Inr m) \<longleftrightarrow> normalizable e) \<and>
   (\<not> normalizable e \<longrightarrow> normalizeEvent e = Inl TypeError) \<and>
   (e \<noteq> JNull \<and> e \<noteq> JUndefined \<and> field e ''type'' \<notin> documentedTags \<and>
    printable (field e ''type'') \<longrightarrow> normalizeEvent e = Inr None)"
proof -
  have iff: "(\<exists>m. normalizeEvent e = Inr m) \<longleftrightarrow> normalizable e"
  proof (cases "e = JNull \<or> e = JUndefined")
    case True
    then have "getProp e ''type'' = Inl TypeError" by (rule getProp_null)
    then have "normalizeEvent e = Inl TypeError" by (simp add: normalizeEvent_def)
    with True show ?thesis by (auto simp: normalizable_def)
  next
    case False
    then have nn: "e \<noteq> JNull" "e \<noteq> JUndefined" by simp_all
    then have g: "getProp e ''type'' = Inr (field e ''type'')" by (rule getProp_field)
    consider (init) "field e ''type'' = JStr ''init''"
      | (message) "field e ''type'' = JStr ''message''"
      | (tool_use) "field e ''type'' = JStr ''tool_use''"
      | (tool_result) "field e ''type'' = JStr ''tool_result''"
      | (result) "field e ''type'' = JStr ''result''"
      | (error) "field e ''type'' = JStr ''error''"
      | (other) "field e ''type'' \<notin> documentedTags"
      by (auto simp: documentedTags_def)
    then show ?thesis
    proof cases
      case init
      then show ?thesis using nn g
        by (simp add: normalizeEvent_def normalizable_def documentedTags_def interpolate_cases)
    next
      case message
      then show ?thesis using nn g
        by (simp add: normalizeEvent_def normalizable_def documentedTags_def)
    next
      case tool_use
      then have "normalizeEvent e = normalizeToolUse e" using g
        by (simp add: normalizeEvent_def)
      then show ?thesis using nn tool_use
        by (simp add: normalizeToolUse_returns normalizable_def documentedTags_def)
    next
      case tool_result
      then have "normalizeEvent e = normalizeToolResult e" using g
        by (simp add: normalizeEvent_def)
      then show ?thesis using nn tool_result
        by (simp add: normalizeToolResult_returns normalizable_def documentedTags_def)
    next
      case result
      then show ?thesis using nn g
        by (simp add: normalizeEvent_def normalizable_def documentedTags_def interpolate_cases)
    next
      case error
      then show ?thesis using nn g
        by (simp add: normalizeEvent_def normalizable_def documentedTags_def)
    next
      case other
      then have "normalizeEvent e =
           (if printable (field e ''type'') then Inr None else Inl TypeError)"
        using nn by (simp add: normalizeEvent_unknown_tag)
      moreover have "normalizable e \<longleftrightarrow> printable (field e ''type'')"
        using other nn by (auto simp: normalizable_def documentedTags_def)
      ultimately show ?thesis by simp
    qed
  qed
  have throws: "\<not> normalizable e \<longrightarrow> normalizeEvent e = Inl TypeError"
  proof
    assume "\<not> normalizable e"
    with iff have no: "\<not> (\<exists>m. normalizeEvent e = Inr m)" by simp
    show "normalizeEvent e = Inl TypeError"
    proof (cases "normalizeEvent e")
      case (Inl err)
      then show ?thesis by (cases err) simp
    next
      case (Inr m)
      with no show ?thesis by blast
    qed
  qed
  have unknown: "e \<noteq> JNull \<and> e \<noteq> JUndefined \<and> field e ''type'' \<notin> documentedTags \<and>
    printable (field e ''type'') \<longrightarrow> normalizeEvent e = Inr None"
    by (simp add: normalizeEvent_unknown_tag)
  from iff throws unknown show ?thesis by blast
qed

theorem normalizeEvent_total_on_normalizable_witness:
  "normalizeEvent (JObj [(''type'', JStr ''thought''), (''content'', JStr ''hmm'')]) = Inr None \<and>
   normalizeEvent (JObj [(''type'', JObj [(''toString'', JNum ''1'')])]) = Inl TypeError \<and>
   (\<exists>m. normalizeEvent (JObj [(''type'', JStr ''tool_result''), (''tool_id'', JStr ''t1''),
       (''status'', JStr ''error''), (''output'', JStr ''no such file'')]) = Inr m)"
proof -
  let ?u = "JObj [(''type'', JStr ''thought''), (''content'', JStr ''hmm'')]"
  let ?b = "JObj [(''type'', JObj [(''toString'', JNum ''1'')])]"
  let ?r = "JObj [(''type'', JStr ''tool_result''), (''tool_id'', JStr ''t1''),
       (''status'', JStr ''error''), (''output'', JStr ''no such file'')]"
  have hu: "?u \<noteq> JNull \<and> ?u \<noteq> JUndefined \<and> field ?u ''type'' \<notin> documentedTags \<and>
    printable (field ?u ''type'')"
    by (simp add: field_def getPropOpt_def documentedTags_def printable_def)
  have hb: "\<not> normalizable ?b"
    by (simp add: normalizable_def field_def getPropOpt_def documentedTags_def printable_def)
  have hr: "normalizable ?r"
    by (simp add: normalizable_def field_def getPropOpt_def documentedTags_def printable_def)
  from hu normalizeEvent_total_on_normalizable [of ?u]
  have a: "normalizeEvent ?u = Inr None" by blast
  from hb normalizeEvent_total_on_normalizable [of ?b]
  have b: "normalizeEvent ?b = Inl TypeError" by blast
  from hr normalizeEvent_total_on_normalizable [of ?r]
  have c: "\<exists>m. normalizeEvent ?r = Inr m" by blast
  from a b c show ?thesis by blast
qed

text \<open>
  C3 as stated fails: \<open>normalizeEvent\<close> throws on a \<open>null\<close> line, on a \<open>write_todos\<close>
  tool call that has no parameters, and on a \<open>write_todos\<close> tool call, well-formed for
  the declared event type, whose \<open>todos\<close> array holds a \<open>null\<close>.
\<close>

theorem normalizeEvent_throws_counterexample:
  "normalizeEvent JNull = Inl TypeError \<and>
   normalizeEvent (JObj [(''type'', JStr ''tool_use''), (''tool_name'', JStr ''write_todos''),
       (''tool_id'', JStr ''call_1'')]) = Inl TypeError \<and>
   normalizeEvent (JObj [(''type'', JStr ''tool_use''), (''tool_name'', JStr ''write_todos''),
       (''tool_id'', JStr ''call_1''),
       (''parameters'', JObj [(''todos'', JArr [JNull])])]) = Inl TypeError"
  by (simp add: normalizeEvent_def normalizeToolUse_def field_def getPropOpt_def
      normalizeGeminiToolName_def GEMINI_TOOL_NAME_MAP_def normalizeGeminiToolInput_def
      normalizeTodo_def)

section \<open>Propagation of the session id\<close>

lemma stamp_cases:
  "truthy s \<Longrightarrow>
   stamp s n =
     (if truthy (session_id n) then n
      else (case n of
              AssistantMessage own blocks \<Rightarrow> AssistantMessage s blocks
            | ResultSuccess own \<Rightarrow> ResultSuccess s
            | ErrorMessage own err \<Rightarrow> ErrorMessage s err))"
  by (cases n) (simp_all add: stamp_def)

lemma stamp_truthy:
  "truthy s \<Longrightarrow> truthy (session_id (stamp s n))"
  by (cases n) (simp_all add: stamp_def)

lemma captureSession_Inr:
  assumes "captureSession sid e = Inr sid'"
  shows "sid' = (if field e ''type'' = JStr ''init'' then field e ''session_id'' else sid)"
proof (cases "e = JNull \<or> e = JUndefined")
  case True
  then have "getProp e ''type'' = Inl TypeError" by (rule getProp_null)
  with assms show ?thesis by (simp add: captureSession_def)
next
  case False
  then have "getProp e ''type'' = Inr (field e ''type'')"
    by (simp add: getProp_field)
  with assms show ?thesis
    by (auto simp: captureSession_def split: if_splits option.splits)
qed

lemma normalizeEvent_init:
  assumes "field e ''type'' = JStr ''init''"
  shows "normalizeEvent e = Inr None \<or> normalizeEvent e = Inl TypeError"
proof (cases "e = JNull \<or> e = JUndefined")
  case True
  then have "getProp e ''type'' = Inl TypeError" by (rule getProp_null)
  then show ?thesis by (simp add: normalizeEvent_def)
next
  case False
  then have "getProp e ''type'' = Inr (JStr ''init'')"
    using assms by (simp add: getProp_field)
  then show ?thesis
    by (simp add: normalizeEvent_def interpolate_cases)
qed

lemma normalizeEvent_Inr_captureSession:
  assumes "normalizeEvent e = Inr r"
  shows "captureSession sid e =
           Inr (if field e ''type'' = JStr ''init'' then field e ''session_id'' else sid)"
proof (cases "e = JNull \<or> e = JUndefined")
  case True
  then have "getProp e ''type'' = Inl TypeError" by (rule getProp_null)
  with assms show ?thesis by (simp add: normalizeEvent_def)
next
  case False
  then have g: "getProp e ''type'' = Inr (field e ''type'')"
    by (simp add: getProp_field)
  show ?thesis
  proof (cases "field e ''type'' = JStr ''init''")
    case True
    with assms g have "interpolate [field e ''session_id'', field e ''model''] = None"
      by (simp add: normalizeEvent_def split: option.splits)
    with True g show ?thesis by (simp add: captureSession_def)
  next
    case False
    with g show ?thesis by (simp add: captureSession_def)
  qed
qed

text \<open>
  Where a yielded message comes from: an event of the stream that normalizes to a
  message, stamped with the session id captured when the event is read, which is the
  one of the last init event before it, or the one held at the start if there is none.
\<close>

lemma consumeEvents_message_origin:
  "m \<in> set (fst (consumeEvents sid events)) \<Longrightarrow>
   \<exists>pre e post n s.
     events = pre @ e # post \<and> normalizeEvent e = Inr (Some n) \<and> m = stamp s n \<and>
     ((\<forall>x \<in> set pre. field x ''type'' \<noteq> JStr ''init'') \<and> s = sid \<or>
      (\<exists>p1 i0 p2. pre = p1 @ i0 # p2 \<and> field i0 ''type'' = JStr ''init'' \<and>
         (\<forall>x \<in> set p2. field x ''type'' \<noteq> JStr ''init'') \<and>
         s = field i0 ''session_id''))"
proof (induction events arbitrary: sid)
  case Nil
  then show ?case by simp
next
  case (Cons e0 rest)
  show ?case
  proof (cases "captureSession sid e0")
    case (Inl err)
    with Cons.prems show ?thesis by simp
  next
    case cs: (Inr sid')
    then have sid': "sid' = (if field e0 ''type'' = JStr ''init''
                            then field e0 ''session_id'' else sid)"
      by (rule captureSession_Inr)
    have from_rest: ?thesis if mem: "m \<in> set (fst (consumeEvents sid' rest))"
    proof -
      from Cons.IH [OF mem] obtain pre e post n s where
        ev: "rest = pre @ e # post" and ne: "normalizeEvent e = Inr (Some n)"
        and m: "m = stamp s n"
        and orig: "(\<forall>x \<in> set pre. field x ''type'' \<noteq> JStr ''init'') \<and> s = sid' \<or>
           (\<exists>p1 i0 p2. pre = p1 @ i0 # p2 \<and> field i0 ''type'' = JStr ''init'' \<and>
              (\<forall>x \<in> set p2. field x ''type'' \<noteq> JStr ''init'') \<and>
              s = field i0 ''session_id'')"
        by blast
      have ev': "e0 # rest = (e0 # pre) @ e # post" using ev by simp
      have "(\<forall>x \<in> set (e0 # pre). field x ''type'' \<noteq> JStr ''init'') \<and> s = sid \<or>
           (\<exists>p1 i0 p2. e0 # pre = p1 @ i0 # p2 \<and> field i0 ''type'' = JStr ''init'' \<and>
              (\<forall>x \<in> set p2. field x ''type'' \<noteq> JStr ''init'') \<and>
              s = field i0 ''session_id'')"
        using orig
      proof
        assume a: "(\<forall>x \<in> set pre. field x ''type'' \<noteq> JStr ''init'') \<and> s = sid'"
        show ?thesis
        proof (cases "field e0 ''type'' = JStr ''init''")
          case True
          with a sid' have "e0 # pre = [] @ e0 # pre \<and> field e0 ''type'' = JStr ''init'' \<and>
              (\<forall>x \<in> set pre. field x ''type'' \<noteq> JStr ''init'') \<and>
              s = field e0 ''session_id''"
            by simp
          then show ?thesis by blast
        next
          case False
          with a sid' show ?thesis by simp
        qed
      next
        assume "\<exists>p1 i0 p2. pre = p1 @ i0 # p2 \<and> field i0 ''type'' = JStr ''init'' \<and>
              (\<forall>x \<in> set p2. field x ''type'' \<noteq> JStr ''init'') \<and>
              s = field i0 ''session_id''"
        then obtain p1 i0 p2 where "pre = p1 @ i0 # p2"
          and i: "field i0 ''type'' = JStr ''init''"
          and p: "\<forall>x \<in> set p2. field x ''type'' \<noteq> JStr ''init''"
          and s: "s = field i0 ''session_id''"
          by blast
        then have "e0 # pre = (e0 # p1) @ i0 # p2" by simp
        with i p s show ?thesis by blast
      qed
      with ev' ne m show ?thesis by blast
    qed
    show ?thesis
    proof (cases "normalizeEvent e0")
      case (Inl err)
      with cs Cons.prems show ?thesis by simp
    next
      case ne0: (Inr r)
      show ?thesis
      proof (cases r)
        case None
        with ne0 cs Cons.prems have "m \<in> set (fst (consumeEvents sid' rest))" by simp
        then show ?thesis by (rule from_rest)
      next
        case (Some n0)
        with ne0 cs Cons.prems
        have "m = stamp sid' n0 \<or> m \<in> set (fst (consumeEvents sid' rest))" by simp
        then show ?thesis
        proof
          assume m: "m = stamp sid' n0"
          have notinit: "field e0 ''type'' \<noteq> JStr ''init''"
          proof
            assume "field e0 ''type'' = JStr ''init''"
            from normalizeEvent_init [OF this] ne0 Some show False by simp
          qed
          with sid' have "sid' = sid" by simp
          with m ne0 Some have "e0 # rest = [] @ e0 # rest \<and>
              normalizeEvent e0 = Inr (Some n0) \<and> m = stamp sid n0 \<and>
              (\<forall>x \<in> set []. field x ''type'' \<noteq> JStr ''init'') \<and> sid = sid"
            by simp
          then show ?thesis by blast
        next
          assume "m \<in> set (fst (consumeEvents sid' rest))"
          then show ?thesis by (rule from_rest)
        qed
      qed
    qed
  qed
qed

text \<open>
  The messages of a stream on which nothing throws, one event after the other: the
  session id captured when event \<open>j\<close> is read is the last of the ids captured so far.
\<close>

lemma captured_shift:
  "last (sid # map f (filter P (take (Suc j) (e0 # rest)))) =
   last ((if P e0 then f e0 else sid) # map f (filter P (take j rest)))"
  by simp

lemma upt_Suc_shift:
  "concat (map f [0..<Suc n]) = f 0 @ concat (map (\<lambda>j. f (Suc j)) [0..<n])"
proof -
  have "[0..<Suc n] = 0 # map Suc [0..<n]"
    by (simp add: upt_conv_Cons map_Suc_upt del: upt_Suc)
  then show ?thesis by (simp add: comp_def del: upt_Suc)
qed

lemma consumeEvents_exact:
  "\<forall>e \<in> set events. \<exists>r. normalizeEvent e = Inr r \<Longrightarrow>
   consumeEvents sid events =
     (concat (map (\<lambda>j.
        case normalizeEvent (events ! j) of
          Inr (Some n) \<Rightarrow>
            [stamp (last (sid # map (\<lambda>x. field x ''session_id'')
                      (filter (\<lambda>x. field x ''type'' = JStr ''init'') (take j events)))) n]
        | _ \<Rightarrow> []) [0..<length events]), None)"
proof (induction events arbitrary: sid)
  case Nil
  then show ?case by simp
next
  case (Cons e0 rest)
  from Cons.prems obtain r where ne0: "normalizeEvent e0 = Inr r" by auto
  let ?sid' = "if field e0 ''type'' = JStr ''init'' then field e0 ''session_id'' else sid"
  have cs: "captureSession sid e0 = Inr ?sid'"
    using ne0 by (rule normalizeEvent_Inr_captureSession)
  from Cons.prems have rest: "\<forall>e \<in> set rest. \<exists>r. normalizeEvent e = Inr r" by simp
  let ?g = "\<lambda>s es j.
        case normalizeEvent (es ! j) of
          Inr (Some n) \<Rightarrow>
            [stamp (last (s # map (\<lambda>x. field x ''session_id'')
                      (filter (\<lambda>x. field x ''type'' = JStr ''init'') (take j es)))) n]
        | _ \<Rightarrow> []"
  have ih: "consumeEvents ?sid' rest = (concat (map (?g ?sid' rest) [0..<length rest]), None)"
    using Cons.IH [OF rest] .
  have shift: "\<And>j. ?g sid (e0 # rest) (Suc j) = ?g ?sid' rest j"
    by (simp only: nth_Cons_Suc captured_shift)
  have head: "?g sid (e0 # rest) 0 = (case r of None \<Rightarrow> [] | Some n \<Rightarrow> [stamp sid n])"
    using ne0 by (simp split: option.splits)
  have notinit: "r \<noteq> None \<Longrightarrow> ?sid' = sid"
  proof -
    assume "r \<noteq> None"
    then obtain n where "r = Some n" by blast
    with ne0 have "field e0 ''type'' \<noteq> JStr ''init''"
      using normalizeEvent_init [of e0] by auto
    then show ?thesis by simp
  qed
  have "concat (map (?g sid (e0 # rest)) [0..<length (e0 # rest)]) =
          ?g sid (e0 # rest) 0 @ concat (map (\<lambda>j. ?g sid (e0 # rest) (Suc j)) [0..<length rest])"
    using upt_Suc_shift [of "?g sid (e0 # rest)" "length rest"] by simp
  also have "\<dots> = (case r of None \<Rightarrow> [] | Some n \<Rightarrow> [stamp sid n]) @
                    concat (map (?g ?sid' rest) [0..<length rest])"
    by (simp only: head shift)
  finally have rhs: "concat (map (?g sid (e0 # rest)) [0..<length (e0 # rest)]) =
     (case r of None \<Rightarrow> [] | Some n \<Rightarrow> [stamp sid n]) @
       concat (map (?g ?sid' rest) [0..<length rest])" .
  have lhs: "consumeEvents sid (e0 # rest) =
     ((case r of None \<Rightarrow> [] | Some n \<Rightarrow> [stamp sid n]) @
        concat (map (?g ?sid' rest) [0..<length rest]), None)"
  proof (cases r)
    case None
    with cs ne0 ih show ?thesis by simp
  next
    case (Some n)
    then have "?sid' = sid" using notinit by simp
    with Some cs ne0 ih show ?thesis by simp
  qed
  from lhs rhs show ?case by simp
qed

lemma consumeEvents_init_step:
  assumes "field ini ''type'' = JStr ''init''"
  shows "fst (consumeEvents sid (ini # events)) = [] \<or>
         fst (consumeEvents sid (ini # events)) =
           fst (consumeEvents (field ini ''session_id'') events)"
proof (cases "ini = JNull \<or> ini = JUndefined")
  case True
  then have "getProp ini ''type'' = Inl TypeError" by (rule getProp_null)
  then show ?thesis by (simp add: captureSession_def)
next
  case False
  then have g: "getProp ini ''type'' = Inr (JStr ''init'')"
    using assms by (simp add: getProp_field)
  show ?thesis
  proof (cases "interpolate [field ini ''session_id'', field ini ''model'']")
    case (Some err)
    with g show ?thesis by (simp add: captureSession_def)
  next
    case None
    with g show ?thesis by (simp add: captureSession_def normalizeEvent_def)
  qed
qed

lemma consumeEvents_init_step_exact:
  assumes "field ini ''type'' = JStr ''init''" and "normalizeEvent ini = Inr r"
  shows "consumeEvents sid (ini # events) = consumeEvents (field ini ''session_id'') events"
proof -
  from normalizeEvent_init [OF assms(1)] assms(2) have "normalizeEvent ini = Inr None"
    by auto
  moreover have "captureSession sid ini = Inr (field ini ''session_id'')"
    using normalizeEvent_Inr_captureSession [OF assms(2), of sid] assms(1) by simp
  ultimately show ?thesis by simp
qed

lemma consumeEvents_append:
  "\<exists>sid'. fst (consumeEvents sid (xs @ ys)) =
            fst (consumeEvents sid xs) @
            (if snd (consumeEvents sid xs) = None then fst (consumeEvents sid' ys) else [])"
proof (induction xs arbitrary: sid)
  case Nil
  show ?case by (rule exI [of _ sid]) simp
next
  case (Cons x xs)
  show ?case
  proof (cases "captureSession sid x")
    case (Inl err)
    then show ?thesis by simp
  next
    case cs: (Inr s1)
    from Cons.IH [of s1] obtain sid' where
      ih: "fst (consumeEvents s1 (xs @ ys)) =
             fst (consumeEvents s1 xs) @
             (if snd (consumeEvents s1 xs) = None then fst (consumeEvents sid' ys) else [])"
      by blast
    show ?thesis
    proof (cases "normalizeEvent x")
      case (Inl err)
      with cs show ?thesis by simp
    next
      case r: (Inr r)
      show ?thesis
      proof (cases r)
        case None
        with r cs ih show ?thesis by (intro exI [of _ sid']) simp
      next
        case (Some m)
        with r cs ih show ?thesis by (intro exI [of _ sid']) simp
      qed
    qed
  qed
qed

lemma fst_runStream:
  "fst (runStream isAbort classify stream) = fst (consumeEvents JUndefined (fst stream))"
  by (simp add: runStream_def split: prod.splits option.splits)

lemma last_captured_truthy:
  assumes "truthy s0"
    and "\<forall>e \<in> set events. field e ''type'' = JStr ''init'' \<longrightarrow> truthy (field e ''session_id'')"
  shows "truthy (last (s0 # map (\<lambda>x. field x ''session_id'')
                   (filter (\<lambda>x. field x ''type'' = JStr ''init'') (take j events))))"
proof -
  let ?ids = "s0 # map (\<lambda>x. field x ''session_id'')
                   (filter (\<lambda>x. field x ''type'' = JStr ''init'') (take j events))"
  have "\<forall>v \<in> set ?ids. truthy v"
    using assms by (auto dest: in_set_takeD)
  moreover have "last ?ids \<in> set ?ids" by (rule last_in_set) simp
  ultimately show ?thesis by blast
qed

text \<open>
  C4, as amended. Take the raw events of one run in three parts: the events before
  an init event, an init event whose \<open>session_id\<close> is truthy (a string that is not
  empty), and the events after it, among which every further init event carries a
  truthy \<open>session_id\<close> too. Then the messages yielded are those yielded for the first
  part followed by later messages, each of which carries a session id. Each later
  message comes from an event \<open>e\<close> of the third part that normalizes to a message \<open>n\<close>:
  if \<open>n\<close> has a session id of its own, what is yielded is \<open>n\<close> as it is; if not, what
  is yielded is \<open>n\<close> with the \<open>session_id\<close> of the most recent init event before \<open>e\<close>
  (\<open>i0\<close>, the last init event among the init event and the events between it and \<open>e\<close>)
  put in, and nothing else changed. And if nothing throws on the way, the later
  messages are exactly these, one for each event of the third part that normalizes to
  a message, in the order of the events.
\<close>

theorem session_id_propagated:
  assumes "field ini ''type'' = JStr ''init''"
    and "truthy (field ini ''session_id'')"
    and "\<forall>e \<in> set after. field e ''type'' = JStr ''init'' \<longrightarrow> truthy (field e ''session_id'')"
  shows "\<exists>later.
           fst (runStream isAbort classify (before @ ini # after, ending)) =
             fst (runStream isAbort classify (before, None)) @ later \<and>
           (\<forall>m \<in> set later.
              truthy (session_id m) \<and>
              (\<exists>pre e post n p1 i0 p2.
                 after = pre @ e # post \<and> normalizeEvent e = Inr (Some n) \<and>
                 ini # pre = p1 @ i0 # p2 \<and> field i0 ''type'' = JStr ''init'' \<and>
                 (\<forall>x \<in> set p2. field x ''type'' \<noteq> JStr ''init'') \<and>
                 (truthy (session_id n) \<longrightarrow> m = n) \<and>
                 (\<not> truthy (session_id n) \<longrightarrow>
                    session_id m = field i0 ''session_id'' \<and>
                    m = (case n of
                           AssistantMessage own blocks \<Rightarrow>
                             AssistantMessage (field i0 ''session_id'') blocks
                         | ResultSuccess own \<Rightarrow> ResultSuccess (field i0 ''session_id'')
                         | ErrorMessage own err \<Rightarrow>
                             ErrorMessage (field i0 ''session_id'') err)))) \<and>
           (snd (consumeEvents JUndefined before) = None \<and>
            (\<forall>e \<in> set (ini # after). \<exists>r. normalizeEvent e = Inr r) \<longrightarrow>
              later =
                concat (map (\<lambda>j.
                  case normalizeEvent (after ! j) of
                    Inr (Some n) \<Rightarrow>
                      [if truthy (session_id n) then n
                       else (case n of
                               AssistantMessage own blocks \<Rightarrow>
                                 AssistantMessage
                                   (last (field ini ''session_id'' #
                                      map (\<lambda>x. field x ''session_id'')
                                        (filter (\<lambda>x. field x ''type'' = JStr ''init'')
                                           (take j after)))) blocks
                             | ResultSuccess own \<Rightarrow>
                                 ResultSuccess
                                   (last (field ini ''session_id'' #
                                      map (\<lambda>x. field x ''session_id'')
                                        (filter (\<lambda>x. field x ''type'' = JStr ''init'')
                                           (take j after))))
                             | ErrorMessage own err \<Rightarrow>
                                 ErrorMessage
                                   (last (field ini ''session_id'' #
                                      map (\<lambda>x. field x ''session_id'')
                                        (filter (\<lambda>x. field x ''type'' = JStr ''init'')
                                           (take j after)))) err)]
                  | _ \<Rightarrow> []) [0..<length after]))"
proof -
  let ?sid0 = "field ini ''session_id''"
  obtain sid' where split:
    "fst (consumeEvents JUndefined (before @ ini # after)) =
       fst (consumeEvents JUndefined before) @
       (if snd (consumeEvents JUndefined before) = None
        then fst (consumeEvents sid' (ini # after)) else [])"
    using consumeEvents_append [of JUndefined before "ini # after"] by blast
  let ?later = "if snd (consumeEvents JUndefined before) = None
        then fst (consumeEvents sid' (ini # after)) else []"
  have eq: "fst (runStream isAbort classify (before @ ini # after, ending)) =
             fst (runStream isAbort classify (before, None)) @ ?later"
    using split by (simp add: fst_runStream)
  have members: "\<forall>m \<in> set ?later.
              truthy (session_id m) \<and>
              (\<exists>pre e post n p1 i0 p2.
                 after = pre @ e # post \<and> normalizeEvent e = Inr (Some n) \<and>
                 ini # pre = p1 @ i0 # p2 \<and> field i0 ''type'' = JStr ''init'' \<and>
                 (\<forall>x \<in> set p2. field x ''type'' \<noteq> JStr ''init'') \<and>
                 (truthy (session_id n) \<longrightarrow> m = n) \<and>
                 (\<not> truthy (session_id n) \<longrightarrow>
                    session_id m = field i0 ''session_id'' \<and>
                    m = (case n of
                           AssistantMessage own blocks \<Rightarrow>
                             AssistantMessage (field i0 ''session_id'') blocks
                         | ResultSuccess own \<Rightarrow> ResultSuccess (field i0 ''session_id'')
                         | ErrorMessage own err \<Rightarrow>
                             ErrorMessage (field i0 ''session_id'') err)))"
  proof
    fix m
    assume "m \<in> set ?later"
    then have "m \<in> set (fst (consumeEvents sid' (ini # after)))"
      by (simp split: if_splits)
    with consumeEvents_init_step [OF assms(1), of sid' after]
    have "m \<in> set (fst (consumeEvents ?sid0 after))" by auto
    from consumeEvents_message_origin [OF this] obtain pre e post n s where
      ev: "after = pre @ e # post" and ne: "normalizeEvent e = Inr (Some n)"
      and m: "m = stamp s n"
      and orig: "(\<forall>x \<in> set pre. field x ''type'' \<noteq> JStr ''init'') \<and> s = ?sid0 \<or>
         (\<exists>p1 i0 p2. pre = p1 @ i0 # p2 \<and> field i0 ''type'' = JStr ''init'' \<and>
            (\<forall>x \<in> set p2. field x ''type'' \<noteq> JStr ''init'') \<and>
            s = field i0 ''session_id'')"
      by blast
    have "\<exists>p1 i0 p2. ini # pre = p1 @ i0 # p2 \<and> field i0 ''type'' = JStr ''init'' \<and>
            (\<forall>x \<in> set p2. field x ''type'' \<noteq> JStr ''init'') \<and>
            s = field i0 ''session_id'' \<and> truthy s"
      using orig
    proof
      assume a: "(\<forall>x \<in> set pre. field x ''type'' \<noteq> JStr ''init'') \<and> s = ?sid0"
      with assms(1,2) have "ini # pre = [] @ ini # pre \<and> field ini ''type'' = JStr ''init'' \<and>
            (\<forall>x \<in> set pre. field x ''type'' \<noteq> JStr ''init'') \<and>
            s = field ini ''session_id'' \<and> truthy s"
        by simp
      then show ?thesis by blast
    next
      assume "\<exists>p1 i0 p2. pre = p1 @ i0 # p2 \<and> field i0 ''type'' = JStr ''init'' \<and>
            (\<forall>x \<in> set p2. field x ''type'' \<noteq> JStr ''init'') \<and>
            s = field i0 ''session_id''"
      then obtain p1 i0 p2 where pre: "pre = p1 @ i0 # p2"
        and i: "field i0 ''type'' = JStr ''init''"
        and p: "\<forall>x \<in> set p2. field x ''type'' \<noteq> JStr ''init''"
        and s: "s = field i0 ''session_id''"
        by blast
      from pre ev have "i0 \<in> set after" by simp
      with assms(3) i s have "truthy s" by blast
      moreover from pre have "ini # pre = (ini # p1) @ i0 # p2" by simp
      ultimately show ?thesis using i p s by blast
    qed
    then obtain p1 i0 p2 where dec: "ini # pre = p1 @ i0 # p2"
      and i: "field i0 ''type'' = JStr ''init''"
      and p: "\<forall>x \<in> set p2. field x ''type'' \<noteq> JStr ''init''"
      and s: "s = field i0 ''session_id''" and ts: "truthy s"
      by blast
    have t: "truthy (session_id m)" using m ts by (simp add: stamp_truthy)
    have own: "truthy (session_id n) \<longrightarrow> m = n"
      using m ts by (simp add: stamp_cases)
    have given: "\<not> truthy (session_id n) \<longrightarrow>
                    session_id m = field i0 ''session_id'' \<and>
                    m = (case n of
                           AssistantMessage own blocks \<Rightarrow>
                             AssistantMessage (field i0 ''session_id'') blocks
                         | ResultSuccess own \<Rightarrow> ResultSuccess (field i0 ''session_id'')
                         | ErrorMessage own err \<Rightarrow>
                             ErrorMessage (field i0 ''session_id'') err)"
      using m ts s by (cases n) (simp_all add: stamp_cases)
    from t ev ne dec i p own given
    show "truthy (session_id m) \<and>
              (\<exists>pre e post n p1 i0 p2.
                 after = pre @ e # post \<and> normalizeEvent e = Inr (Some n) \<and>
                 ini # pre = p1 @ i0 # p2 \<and> field i0 ''type'' = JStr ''init'' \<and>
                 (\<forall>x \<in> set p2. field x ''type'' \<noteq> JStr ''init'') \<and>
                 (truthy (session_id n) \<longrightarrow> m = n) \<and>
                 (\<not> truthy (session_id n) \<longrightarrow>
                    session_id m = field i0 ''session_id'' \<and>
                    m = (case n of
                           AssistantMessage own blocks \<Rightarrow>
                             AssistantMessage (field i0 ''session_id'') blocks
                         | ResultSuccess own \<Rightarrow> ResultSuccess (field i0 ''session_id'')
                         | ErrorMessage own err \<Rightarrow>
                             ErrorMessage (field i0 ''session_id'') err)))"
      by blast
  qed
  let ?exact = "concat (map (\<lambda>j.
                  case normalizeEvent (after ! j) of
                    Inr (Some n) \<Rightarrow>
                      [if truthy (session_id n) then n
                       else (case n of
                               AssistantMessage own blocks \<Rightarrow>
                                 AssistantMessage
                                   (last (field ini ''session_id'' #
                                      map (\<lambda>x. field x ''session_id'')
                                        (filter (\<lambda>x. field x ''type'' = JStr ''init'')
                                           (take j after)))) blocks
                             | ResultSuccess own \<Rightarrow>
                                 ResultSuccess
                                   (last (field ini ''session_id'' #
                                      map (\<lambda>x. field x ''session_id'')
                                        (filter (\<lambda>x. field x ''type'' = JStr ''init'')
                                           (take j after))))
                             | ErrorMessage own err \<Rightarrow>
                                 ErrorMessage
                                   (last (field ini ''session_id'' #
                                      map (\<lambda>x. field x ''session_id'')
                                        (filter (\<lambda>x. field x ''type'' = JStr ''init'')
                                           (take j after)))) err)]
                  | _ \<Rightarrow> []) [0..<length after])"
  have exact: "snd (consumeEvents JUndefined before) = None \<and>
            (\<forall>e \<in> set (ini # after). \<exists>r. normalizeEvent e = Inr r) \<longrightarrow> ?later = ?exact"
  proof
    assume h: "snd (consumeEvents JUndefined before) = None \<and>
            (\<forall>e \<in> set (ini # after). \<exists>r. normalizeEvent e = Inr r)"
    then obtain r where ri: "normalizeEvent ini = Inr r" by auto
    from h have all: "\<forall>e \<in> set after. \<exists>r. normalizeEvent e = Inr r" by simp
    have pw: "\<And>j n.
        stamp (last (?sid0 # map (\<lambda>x. field x ''session_id'')
                 (filter (\<lambda>x. field x ''type'' = JStr ''init'') (take j after)))) n =
        (if truthy (session_id n) then n
         else (case n of
                 AssistantMessage own blocks \<Rightarrow>
                   AssistantMessage
                     (last (?sid0 # map (\<lambda>x. field x ''session_id'')
                        (filter (\<lambda>x. field x ''type'' = JStr ''init'') (take j after))))
                     blocks
               | ResultSuccess own \<Rightarrow>
                   ResultSuccess
                     (last (?sid0 # map (\<lambda>x. field x ''session_id'')
                        (filter (\<lambda>x. field x ''type'' = JStr ''init'') (take j after))))
               | ErrorMessage own err \<Rightarrow>
                   ErrorMessage
                     (last (?sid0 # map (\<lambda>x. field x ''session_id'')
                        (filter (\<lambda>x. field x ''type'' = JStr ''init'') (take j after))))
                     err))"
      by (rule stamp_cases) (rule last_captured_truthy [OF assms(2) assms(3)])
    have "?later = fst (consumeEvents sid' (ini # after))" using h by simp
    also have "\<dots> = fst (consumeEvents ?sid0 after)"
      using consumeEvents_init_step_exact [OF assms(1) ri] by simp
    also have "\<dots> = concat (map (\<lambda>j.
        case normalizeEvent (after ! j) of
          Inr (Some n) \<Rightarrow>
            [stamp (last (?sid0 # map (\<lambda>x. field x ''session_id'')
                      (filter (\<lambda>x. field x ''type'' = JStr ''init'') (take j after)))) n]
        | _ \<Rightarrow> []) [0..<length after])"
      using consumeEvents_exact [OF all, of ?sid0] by simp
    also have "\<dots> = ?exact"
      by (simp only: pw)
    finally show "?later = ?exact" .
  qed
  from eq members exact show ?thesis by blast
qed

theorem session_id_propagated_witness:
  "fst (runStream (\<lambda>e. False) mapError
     ([JObj [(''type'', JStr ''message''), (''role'', JStr ''assistant''),
             (''content'', JStr ''early'')]] @
       JObj [(''type'', JStr ''init''), (''session_id'', JStr ''s1''),
             (''model'', JStr ''gemini-2.5-flash'')] #
      [JObj [(''type'', JStr ''message''), (''role'', JStr ''assistant''),
             (''content'', JStr ''hello'')],
       JObj [(''type'', JStr ''tool_result''), (''session_id'', JStr ''x9''),
             (''tool_id'', JStr ''t1''), (''status'', JStr ''success''),
             (''output'', JStr ''ok'')],
       JObj [(''type'', JStr ''init''), (''session_id'', JStr ''s2''),
             (''model'', JStr ''gemini-2.5-flash'')],
       JObj [(''type'', JStr ''result''), (''status'', JStr ''success'')]], None)) =
   [AssistantMessage JUndefined [TextBlock (JStr ''early'')],
    AssistantMessage (JStr ''s1'') [TextBlock (JStr ''hello'')],
    AssistantMessage (JStr ''x9'') [ToolResultBlock (JStr ''t1'') (JStr ''ok'')],
    ResultSuccess (JStr ''s2'')]"
proof -
  let ?early = "JObj [(''type'', JStr ''message''), (''role'', JStr ''assistant''),
             (''content'', JStr ''early'')]"
  let ?ini = "JObj [(''type'', JStr ''init''), (''session_id'', JStr ''s1''),
             (''model'', JStr ''gemini-2.5-flash'')]"
  let ?after = "[JObj [(''type'', JStr ''message''), (''role'', JStr ''assistant''),
             (''content'', JStr ''hello'')],
       JObj [(''type'', JStr ''tool_result''), (''session_id'', JStr ''x9''),
             (''tool_id'', JStr ''t1''), (''status'', JStr ''success''),
             (''output'', JStr ''ok'')],
       JObj [(''type'', JStr ''init''), (''session_id'', JStr ''s2''),
             (''model'', JStr ''gemini-2.5-flash'')],
       JObj [(''type'', JStr ''result''), (''status'', JStr ''success'')]]"
  let ?exact = "concat (map (\<lambda>j.
                  case normalizeEvent (?after ! j) of
                    Inr (Some n) \<Rightarrow>
                      [if truthy (session_id n) then n
                       else (case n of
                               AssistantMessage own blocks \<Rightarrow>
                                 AssistantMessage
                                   (last (field ?ini ''session_id'' #
                                      map (\<lambda>x. field x ''session_id'')
                                        (filter (\<lambda>x. field x ''type'' = JStr ''init'')
                                           (take j ?after)))) blocks
                             | ResultSuccess own \<Rightarrow>
                                 ResultSuccess
                                   (last (field ?ini ''session_id'' #
                                      map (\<lambda>x. field x ''session_id'')
                                        (filter (\<lambda>x. field x ''type'' = JStr ''init'')
                                           (take j ?after))))
                             | ErrorMessage own err \<Rightarrow>
                                 ErrorMessage
                                   (last (field ?ini ''session_id'' #
                                      map (\<lambda>x. field x ''session_id'')
                                        (filter (\<lambda>x. field x ''type'' = JStr ''init'')
                                           (take j ?after)))) err)]
                  | _ \<Rightarrow> []) [0..<length ?after])"
  have h1: "field ?ini ''type'' = JStr ''init''" by (simp add: field_def getPropOpt_def)
  have h2: "truthy (field ?ini ''session_id'')" by (simp add: field_def getPropOpt_def)
  have h3: "\<forall>e \<in> set ?after. field e ''type'' = JStr ''init'' \<longrightarrow>
              truthy (field e ''session_id'')"
    by (simp add: field_def getPropOpt_def)
  have quiet: "snd (consumeEvents JUndefined [?early]) = None \<and>
               (\<forall>e \<in> set (?ini # ?after). \<exists>r. normalizeEvent e = Inr r)"
    by (simp add: captureSession_def normalizeEvent_def normalizeToolResult_def field_def
        getPropOpt_def stamp_def)
  obtain later where
    eq: "fst (runStream (\<lambda>e. False) mapError ([?early] @ ?ini # ?after, None)) =
           fst (runStream (\<lambda>e. False) mapError ([?early], None)) @ later"
    and ex: "snd (consumeEvents JUndefined [?early]) = None \<and>
             (\<forall>e \<in> set (?ini # ?after). \<exists>r. normalizeEvent e = Inr r) \<longrightarrow> later = ?exact"
    using session_id_propagated [OF h1 h2 h3, of "\<lambda>e. False" mapError "[?early]" None]
    by blast
  from ex quiet have later: "later = ?exact" by blast
  have first: "fst (runStream (\<lambda>e. False) mapError ([?early], None)) =
                 [AssistantMessage JUndefined [TextBlock (JStr ''early'')]]"
    by (simp add: runStream_def captureSession_def normalizeEvent_def field_def
        getPropOpt_def stamp_def)
  have rest: "?exact =
     [AssistantMessage (JStr ''s1'') [TextBlock (JStr ''hello'')],
      AssistantMessage (JStr ''x9'') [ToolResultBlock (JStr ''t1'') (JStr ''ok'')],
      ResultSuccess (JStr ''s2'')]"
    by (simp add: upt_rec normalizeEvent_def normalizeToolResult_def field_def getPropOpt_def)
  from eq later first rest show ?thesis by simp
qed

text \<open>
  C4 as stated fails when a later init event carries an empty session id (or none):
  it replaces the captured one, and a message yielded after it, having no session id
  of its own, is yielded without one, although a session id had been observed before.
\<close>

theorem session_id_lost_counterexample:
  "executeQuery
     \<lparr>cliPath = Some ''/usr/local/bin/gemini'',
      validateBareModelId = (\<lambda>m. None),
      isAbortError = (\<lambda>e. excName e = ''AbortError''),
      spawnJSONLProcess = (\<lambda>path args opts.
         ([JObj [(''type'', JStr ''init''), (''session_id'', JStr ''s1''),
                 (''model'', JStr ''gemini-2.5-flash'')],
           JObj [(''type'', JStr ''init''), (''session_id'', JStr []),
                 (''model'', JStr ''gemini-2.5-flash'')],
           JObj [(''type'', JStr ''message''), (''role'', JStr ''assistant''),
                 (''content'', JStr ''hello'')]],
          None))\<rparr>
     \<lparr>prompt = PromptString ''hi'', model = Some ''2.5-flash'', cwd = Some ''/repo''\<rparr> =
   ([AssistantMessage JUndefined [TextBlock (JStr ''hello'')]], Completed) \<and>
   \<not> truthy (session_id (AssistantMessage JUndefined [TextBlock (JStr ''hello'')]))"
  by (simp add: executeQuery_def present_def queryArgs_def extractPromptText_def
      runStream_def captureSession_def normalizeEvent_def field_def getPropOpt_def stamp_def)

end
